theory Spec2Isabelle
  imports Main "HOL-Library.Word"
begin

section \<open>HCB script tool of fvp\_tools.py: decoder and rebuilder\<close>

text \<open>
  The embedding follows \<^verbatim>\<open>src/fvp_tools.py\<close>: the opcode table, \<^verbatim>\<open>hcb_decode\<close> (two passes
  over the code section) and \<^verbatim>\<open>hcb_rebuild\<close> (one pass that copies the code section and
  patches string operands). A file is a list of bytes. A Python \<^verbatim>\<open>str\<close> is a list of Unicode
  code points. Python exceptions are values of \<open>py_error\<close>.

  Three library functions of Python are not part of the repository and are parameters of
  the model: \<^verbatim>\<open>bytes.decode('cp932', errors='replace')\<close> (\<open>dec\<close>), \<^verbatim>\<open>str.encode('cp932',
  errors='strict')\<close> (\<open>enc\<close>, which returns the offsets \<open>(start, end)\<close> of the
  \<^verbatim>\<open>UnicodeEncodeError\<close> when it raises) and the rendering of a 32-bit pattern as a Python
  float (\<open>frepr\<close>). Console output other than the per-instruction warning of the rebuilder
  is not modelled.
\<close>

type_synonym byte = "8 word"
type_synonym ustring = "nat list"

datatype py_error = ValueError | IndexError | StructError

definition lit :: "string \<Rightarrow> ustring" where
  "lit s = map of_char s"

subsection \<open>Python built-ins used by the tool\<close>

text \<open>\<^verbatim>\<open>str.replace(old, new)\<close>: non-overlapping occurrences, leftmost first.\<close>

fun py_replace :: "'a list \<Rightarrow> 'a list \<Rightarrow> 'a list \<Rightarrow> 'a list" where
  "py_replace old new [] = (if old = [] then new else [])"
| "py_replace old new (c # cs) =
     (if old = [] then new @ concat (map (\<lambda>x. x # new) (c # cs))
      else if take (length old) (c # cs) = old
        then new @ py_replace old new (drop (length old) (c # cs))
        else c # py_replace old new cs)"

text \<open>\<^verbatim>\<open>xs[:k]\<close>: a negative \<open>k\<close> counts from the end.\<close>

definition py_slice_to :: "'a list \<Rightarrow> int \<Rightarrow> 'a list" where
  "py_slice_to xs k =
     (if k < 0 then take (nat (int (length xs) + k)) xs else take (nat k) xs)"

text \<open>\<^verbatim>\<open>s.rstrip('\x00')\<close>\<close>

definition rstrip_nul :: "ustring \<Rightarrow> ustring" where
  "rstrip_nul s = rev (dropWhile (\<lambda>c. c = 0) (rev s))"

text \<open>\<^verbatim>\<open>str(n)\<close> and the format specifications \<^verbatim>\<open>08X\<close>, \<^verbatim>\<open>08x\<close>, \<^verbatim>\<open>04d\<close>.\<close>

fun str_nat :: "nat \<Rightarrow> ustring" where
  "str_nat n = (if n < 10 then [48 + n] else str_nat (n div 10) @ [48 + n mod 10])"

declare str_nat.simps [simp del]

definition str_int :: "int \<Rightarrow> ustring" where
  "str_int i = (if i < 0 then 45 # str_nat (nat (- i)) else str_nat (nat i))"

definition hex_digit :: "bool \<Rightarrow> nat \<Rightarrow> nat" where
  "hex_digit upper d = (if d < 10 then 48 + d else (if upper then 55 else 87) + d)"

fun hex_nat :: "bool \<Rightarrow> nat \<Rightarrow> ustring" where
  "hex_nat upper n =
     (if n < 16 then [hex_digit upper n]
      else hex_nat upper (n div 16) @ [hex_digit upper (n mod 16)])"

declare hex_nat.simps [simp del]

definition zero_pad :: "nat \<Rightarrow> ustring \<Rightarrow> ustring" where
  "zero_pad w s = replicate (w - length s) 48 @ s"

definition fmt_08X :: "nat \<Rightarrow> ustring" where
  "fmt_08X n = zero_pad 8 (hex_nat True n)"

definition fmt_08x :: "nat \<Rightarrow> ustring" where
  "fmt_08x n = zero_pad 8 (hex_nat False n)"

definition fmt_04d :: "nat \<Rightarrow> ustring" where
  "fmt_04d n = zero_pad 4 (str_nat n)"

text \<open>
  \<^verbatim>\<open>struct.unpack\<close> of little-endian bytes, unsigned (\<^verbatim>\<open><I\<close>) and signed (\<^verbatim>\<open><i\<close>, \<^verbatim>\<open><h\<close>,
  \<^verbatim>\<open><b\<close>), and \<^verbatim>\<open>struct.pack('<I', n)\<close>.
\<close>

fun unpack_le :: "byte list \<Rightarrow> nat" where
  "unpack_le [] = 0"
| "unpack_le (b # bs) = unat b + 256 * unpack_le bs"

definition unpack_signed :: "byte list \<Rightarrow> int" where
  "unpack_signed bs =
     (let u = int (unpack_le bs); n = 8 * length bs
      in if u \<ge> 2 ^ (n - 1) then u - 2 ^ n else u)"

definition pack_I :: "nat \<Rightarrow> byte list" where
  "pack_I n = [of_nat n, of_nat (n div 256), of_nat (n div 65536), of_nat (n div 16777216)]"

subsection \<open>Opcode table\<close>

datatype oparg =
  OPARG_NULL | OPARG_X32 | OPARG_I32 | OPARG_I16 | OPARG_I8 | OPARG_I8I8 | OPARG_STRING

definition HCB_OPCODES :: "(nat \<times> string \<times> oparg) list" where
  "HCB_OPCODES =
    [(0x00, ''nop'', OPARG_NULL),
     (0x01, ''initstack'', OPARG_I8I8),
     (0x02, ''call'', OPARG_X32),
     (0x03, ''syscall'', OPARG_I16),
     (0x04, ''ret'', OPARG_NULL),
     (0x05, ''ret2'', OPARG_NULL),
     (0x06, ''jmp'', OPARG_X32),
     (0x07, ''jmpcond'', OPARG_X32),
     (0x08, ''pushtrue'', OPARG_NULL),
     (0x09, ''pushfalse'', OPARG_NULL),
     (0x0A, ''pushint'', OPARG_I32),
     (0x0B, ''pushint'', OPARG_I16),
     (0x0C, ''pushint'', OPARG_I8),
     (0x0D, ''pushfloat'', OPARG_X32),
     (0x0E, ''pushstring'', OPARG_STRING),
     (0x0F, ''pushglobal'', OPARG_I16),
     (0x10, ''pushstack'', OPARG_I8),
     (0x11, ''unk_11'', OPARG_I16),
     (0x12, ''unk_12'', OPARG_I8),
     (0x13, ''pushtop'', OPARG_NULL),
     (0x14, ''pushtemp'', OPARG_NULL),
     (0x15, ''popglobal'', OPARG_I16),
     (0x16, ''copystack'', OPARG_I8),
     (0x17, ''unk_17'', OPARG_I16),
     (0x18, ''unk_18'', OPARG_I8),
     (0x19, ''neg'', OPARG_NULL),
     (0x1A, ''add'', OPARG_NULL),
     (0x1B, ''sub'', OPARG_NULL),
     (0x1C, ''mul'', OPARG_NULL),
     (0x1D, ''div'', OPARG_NULL),
     (0x1E, ''mod'', OPARG_NULL),
     (0x1F, ''test'', OPARG_NULL),
     (0x20, ''logand'', OPARG_NULL),
     (0x21, ''logor'', OPARG_NULL),
     (0x22, ''eq'', OPARG_NULL),
     (0x23, ''neq'', OPARG_NULL),
     (0x24, ''gt'', OPARG_NULL),
     (0x25, ''le'', OPARG_NULL),
     (0x26, ''lt'', OPARG_NULL),
     (0x27, ''ge'', OPARG_NULL)]"

definition HCB_LAST_OPCODE :: nat where
  "HCB_LAST_OPCODE = 0x27"

text \<open>\<^verbatim>\<open>get_opcode_info\<close>: the pair \<^verbatim>\<open>(None, None)\<close> of the source is \<open>None\<close> here.\<close>

definition get_opcode_info :: "nat \<Rightarrow> (string \<times> oparg) option" where
  "get_opcode_info opcode =
     (if opcode > HCB_LAST_OPCODE then None
      else Some (fst (snd (HCB_OPCODES ! opcode)), snd (snd (HCB_OPCODES ! opcode))))"

subsection \<open>Escaping of the string table\<close>

text \<open>
  \<^verbatim>\<open>hcb_decode\<close> writes a string-table line with
  \<^verbatim>\<open>text.replace('\\', '\\\\').replace('\n', '\\n').replace('\r', '\\r')\<close>;
  \<^verbatim>\<open>hcb_rebuild\<close> reads it back with
  \<^verbatim>\<open>text.replace('\\n', '\n').replace('\\r', '\r').replace('\\\\', '\\')\<close>.
  Code points: 92 backslash, 10 newline, 13 carriage return, 110 \<open>n\<close>, 114 \<open>r\<close>, 34 quote.
\<close>

definition escape_table :: "ustring \<Rightarrow> ustring" where
  "escape_table t =
     py_replace [13] [92, 114] (py_replace [10] [92, 110] (py_replace [92] [92, 92] t))"

definition unescape_table :: "ustring \<Rightarrow> ustring" where
  "unescape_table t =
     py_replace [92, 92] [92] (py_replace [92, 114] [13] (py_replace [92, 110] [10] t))"

definition escape_script :: "ustring \<Rightarrow> ustring" where
  "escape_script t =
     py_replace [13] [92, 114] (py_replace [10] [92, 110]
       (py_replace [34] [92, 34] (py_replace [92] [92, 92] t)))"

subsection \<open>The rebuilder: \<^verbatim>\<open>hcb_rebuild\<close>\<close>

text \<open>
  The size-keeping step applied to a replacement (source lines 444 to 456): a NUL
  terminator is ensured, then the bytes are padded with spaces before the terminator or
  truncated to \<open>old_str_len\<close>.
\<close>

definition ensure_nul :: "byte list \<Rightarrow> byte list" where
  "ensure_nul new_str = (if new_str \<noteq> [] \<and> last new_str = 0 then new_str else new_str @ [0])"

definition keep_size :: "nat \<Rightarrow> byte list \<Rightarrow> byte list" where
  "keep_size old_str_len new_str0 =
     (let new_str = ensure_nul new_str0 in
      if length new_str < old_str_len then
        (let padding = old_str_len - length new_str
         in py_slice_to new_str (- 1) @ replicate padding 32 @ [0])
      else if length new_str > old_str_len then
        py_slice_to new_str (int old_str_len - 1) @ [0]
      else new_str)"

type_synonym encoder = "ustring \<Rightarrow> (nat \<times> nat) + byte list"

text \<open>
  The operand written for a \<^verbatim>\<open>pushstring\<close> at \<open>old_addr\<close>, with the warnings printed
  (address and offending characters).
\<close>

definition new_string ::
  "encoder \<Rightarrow> (nat \<times> ustring) list \<Rightarrow> nat \<Rightarrow> nat \<Rightarrow> byte list
    \<Rightarrow> byte list \<times> (nat \<times> ustring) list" where
  "new_string enc replacements old_addr old_str_len old_str =
     (case map_of replacements old_addr of
        None \<Rightarrow> (old_str, [])
      | Some txt \<Rightarrow>
          (case enc txt of
             Inl (st, en) \<Rightarrow>
               (keep_size old_str_len old_str, [(old_addr, take (en - st) (drop st txt))])
           | Inr bs \<Rightarrow> (keep_size old_str_len bs, [])))"

record rstate =
  r_pos :: nat
  r_new_code :: "byte list"
  r_warnings :: "(nat \<times> ustring) list"

text \<open>
  One iteration of the loop of \<^verbatim>\<open>hcb_rebuild\<close>. \<^verbatim>\<open>data[pos]\<close> raises IndexError beyond the
  end of the file, a slice does not; \<^verbatim>\<open>new_code.append(n)\<close> raises ValueError for
  \<open>n > 255\<close>.
\<close>

definition rebuild_step ::
  "encoder \<Rightarrow> (nat \<times> ustring) list \<Rightarrow> byte list \<Rightarrow> rstate \<Rightarrow> py_error + rstate" where
  "rebuild_step enc replacements data s =
     (let pos = r_pos s; old_addr = pos in
      if pos \<ge> length data then Inl IndexError
      else
        let opcode = unat (data ! pos); code = r_new_code s @ [data ! pos]; pos = pos + 1 in
        if opcode > HCB_LAST_OPCODE then Inr (s\<lparr>r_pos := pos, r_new_code := code\<rparr>)
        else
          (case get_opcode_info opcode of
             None \<Rightarrow> Inr (s\<lparr>r_pos := pos, r_new_code := code\<rparr>)
           | Some (name, arg_type) \<Rightarrow>
              (case arg_type of
                 OPARG_NULL \<Rightarrow> Inr (s\<lparr>r_pos := pos, r_new_code := code\<rparr>)
               | OPARG_X32 \<Rightarrow>
                   Inr (s\<lparr>r_pos := pos + 4, r_new_code := code @ take 4 (drop pos data)\<rparr>)
               | OPARG_I32 \<Rightarrow>
                   Inr (s\<lparr>r_pos := pos + 4, r_new_code := code @ take 4 (drop pos data)\<rparr>)
               | OPARG_I16 \<Rightarrow>
                   Inr (s\<lparr>r_pos := pos + 2, r_new_code := code @ take 2 (drop pos data)\<rparr>)
               | OPARG_I8 \<Rightarrow>
                   (if pos \<ge> length data then Inl IndexError
                    else Inr (s\<lparr>r_pos := pos + 1, r_new_code := code @ [data ! pos]\<rparr>))
               | OPARG_I8I8 \<Rightarrow>
                   Inr (s\<lparr>r_pos := pos + 2, r_new_code := code @ take 2 (drop pos data)\<rparr>)
               | OPARG_STRING \<Rightarrow>
                   (if pos \<ge> length data then Inl IndexError
                    else
                      let old_str_len = unat (data ! pos);
                          pos = pos + 1;
                          old_str = take old_str_len (drop pos data);
                          pos = pos + old_str_len;
                          (new_str, warns) =
                             new_string enc replacements old_addr old_str_len old_str
                      in if length new_str > 255 then Inl ValueError
                         else Inr (s\<lparr>r_pos := pos,
                                r_new_code := code @ [of_nat (length new_str)] @ new_str,
                                r_warnings := r_warnings s @ warns\<rparr>)))))"

function rebuild_loop ::
  "encoder \<Rightarrow> (nat \<times> ustring) list \<Rightarrow> byte list \<Rightarrow> nat \<Rightarrow> rstate \<Rightarrow> py_error + rstate" where
  "rebuild_loop enc replacements data code_end s =
     (if r_pos s < code_end then
        (case rebuild_step enc replacements data s of
           Inl e \<Rightarrow> Inl e
         | Inr s' \<Rightarrow> rebuild_loop enc replacements data code_end s')
      else Inr s)"
  by pat_completeness auto
termination
  by (relation "measure (\<lambda>(enc, replacements, data, code_end, s). code_end - r_pos s)")
    (auto simp: rebuild_step_def Let_def
      split: if_splits option.splits prod.splits oparg.splits)

declare rebuild_loop.simps [simp del]

text \<open>
  \<^verbatim>\<open>hcb_rebuild\<close>: the bytes written to the output file and the warnings, or the exception.
  \<^verbatim>\<open>struct.unpack_from('<I', data, 0)\<close> raises on a file of fewer than 4 bytes.
\<close>

definition hcb_rebuild ::
  "encoder \<Rightarrow> byte list \<Rightarrow> (nat \<times> ustring) list
    \<Rightarrow> py_error + (byte list \<times> (nat \<times> ustring) list)" where
  "hcb_rebuild enc data replacements =
     (if replacements = [] then Inr (data, [])
      else if length data < 4 then Inl StructError
      else
        let entry_point = unpack_le (take 4 data); code_end = entry_point in
        (case rebuild_loop enc replacements data code_end
                 \<lparr>r_pos = 4, r_new_code = [], r_warnings = []\<rparr> of
           Inl e \<Rightarrow> Inl e
         | Inr s \<Rightarrow> Inr (pack_I entry_point @ r_new_code s @ drop entry_point data,
                       r_warnings s)))"

subsection \<open>The decoder: first pass\<close>

record p1state =
  p1_pos :: nat
  p1_func_num :: nat
  p1_functions :: "nat \<rightharpoonup> nat"
  p1_labels :: "nat \<rightharpoonup> ustring"

text \<open>
  One iteration of the first loop (source lines 140 to 177), entered with
  \<open>pos < code_end\<close> and \<open>pos < len(data)\<close>.
\<close>

definition pass1_step :: "byte list \<Rightarrow> nat \<Rightarrow> p1state \<Rightarrow> p1state" where
  "pass1_step data code_end s =
     (let pos = p1_pos s; opcode = unat (data ! pos) in
      if opcode > HCB_LAST_OPCODE then s\<lparr>p1_pos := pos + 1\<rparr>
      else
        (case get_opcode_info opcode of
           None \<Rightarrow> s\<lparr>p1_pos := pos + 1\<rparr>
         | Some (name, arg_type) \<Rightarrow>
            let s1 = (if name = ''initstack''
                      then s\<lparr>p1_functions := (p1_functions s)(pos \<mapsto> p1_func_num s),
                             p1_func_num := p1_func_num s + 1\<rparr>
                      else s);
                pos = pos + 1
            in
            (case arg_type of
               OPARG_NULL \<Rightarrow> s1\<lparr>p1_pos := pos\<rparr>
             | OPARG_X32 \<Rightarrow>
                 (let target = unpack_le (take 4 (drop pos data));
                      s2 = (if pos + 4 \<le> length data
                               \<and> name \<in> {''jmp'', ''jmpcond'', ''call''}
                               \<and> target < code_end
                               \<and> p1_labels s1 target = None
                               \<and> p1_functions s1 target = None
                            then s1\<lparr>p1_labels :=
                                    (p1_labels s1)(target \<mapsto> lit ''label_'' @ fmt_08x target)\<rparr>
                            else s1)
                  in s2\<lparr>p1_pos := pos + 4\<rparr>)
             | OPARG_I32 \<Rightarrow> s1\<lparr>p1_pos := pos + 4\<rparr>
             | OPARG_I16 \<Rightarrow> s1\<lparr>p1_pos := pos + 2\<rparr>
             | OPARG_I8 \<Rightarrow> s1\<lparr>p1_pos := pos + 1\<rparr>
             | OPARG_I8I8 \<Rightarrow> s1\<lparr>p1_pos := pos + 2\<rparr>
             | OPARG_STRING \<Rightarrow>
                 (if pos < length data
                  then s1\<lparr>p1_pos := pos + (1 + unat (data ! pos))\<rparr>
                  else s1\<lparr>p1_pos := pos + 1\<rparr>))))"

lemma pass1_step_pos: "p1_pos s < p1_pos (pass1_step data code_end s)"
  by (simp add: pass1_step_def Let_def split: option.split prod.split oparg.split)

function pass1_loop :: "byte list \<Rightarrow> nat \<Rightarrow> p1state \<Rightarrow> p1state" where
  "pass1_loop data code_end s =
     (if p1_pos s < code_end then
        (if p1_pos s \<ge> length data then s
         else pass1_loop data code_end (pass1_step data code_end s))
      else s)"
  by pat_completeness auto
termination
  by (relation "measure (\<lambda>(data, code_end, s). code_end - p1_pos s)")
    (simp_all add: diff_less_mono2 pass1_step_pos)

declare pass1_loop.simps [simp del]

definition pass1 :: "byte list \<Rightarrow> nat \<Rightarrow> p1state" where
  "pass1 data code_end =
     pass1_loop data code_end
       \<lparr>p1_pos = 4, p1_func_num = 0, p1_functions = Map.empty, p1_labels = Map.empty\<rparr>"

subsection \<open>The decoder: second pass\<close>

record p2state =
  p2_pos :: nat
  p2_current_func :: int
  p2_string_id :: nat
  p2_lines :: "ustring list"
  p2_strings_list :: "(nat \<times> nat \<times> ustring) list"

datatype 'a loop_ctl = Continue 'a | Break 'a

text \<open>The lines emitted before the instruction at \<open>pos\<close>: function header and label.\<close>

definition function_start :: "(nat \<rightharpoonup> nat) \<Rightarrow> p2state \<Rightarrow> p2state" where
  "function_start functions s =
     (case functions (p2_pos s) of
        None \<Rightarrow> s
      | Some f \<Rightarrow>
          s\<lparr>p2_lines := (p2_lines s @ (if p2_current_func s \<ge> 0 then [[]] else []))
                @ [lit ''# ===== FUNCTION '' @ str_nat f @ lit '' =====''],
            p2_current_func := int f\<rparr>)"

definition label_line :: "(nat \<rightharpoonup> ustring) \<Rightarrow> p2state \<Rightarrow> p2state" where
  "label_line labels s =
     (case labels (p2_pos s) of
        None \<Rightarrow> s
      | Some l \<Rightarrow> s\<lparr>p2_lines := p2_lines s @ [l @ lit '':'']\<rparr>)"

text \<open>The line of an instruction with an \<^verbatim>\<open>OPARG_X32\<close> argument (source lines 223 to 242).\<close>

definition x32_line ::
  "(nat \<Rightarrow> ustring) \<Rightarrow> (nat \<rightharpoonup> nat) \<Rightarrow> (nat \<rightharpoonup> ustring) \<Rightarrow> string \<Rightarrow> nat \<Rightarrow> ustring" where
  "x32_line frepr functions labels name val =
     (if name \<in> {''jmp'', ''jmpcond''} then
        (case labels val of
           Some l \<Rightarrow> lit ''  '' @ lit name @ lit '' '' @ l
         | None \<Rightarrow>
            (case functions val of
               Some f \<Rightarrow> lit ''  '' @ lit name @ lit '' FUNCTION_'' @ str_nat f
             | None \<Rightarrow> lit ''  '' @ lit name @ lit '' 0x'' @ fmt_08X val))
      else if name = ''call'' then
        (case functions val of
           Some f \<Rightarrow> lit ''  '' @ lit name @ lit '' FUNCTION_'' @ str_nat f
         | None \<Rightarrow> lit ''  '' @ lit name @ lit '' 0x'' @ fmt_08X val)
      else if name = ''pushfloat'' then lit ''  '' @ lit name @ lit '' '' @ frepr val
      else lit ''  '' @ lit name @ lit '' 0x'' @ fmt_08X val)"

definition emit :: "p2state \<Rightarrow> nat \<Rightarrow> ustring \<Rightarrow> p2state" where
  "emit s pos line = s\<lparr>p2_pos := pos, p2_lines := p2_lines s @ [line]\<rparr>"

text \<open>
  One iteration of the second loop (source lines 193 to 291), entered with
  \<open>pos < code_end\<close> and \<open>pos < len(data)\<close>. \<open>Break\<close> is the \<^verbatim>\<open>break\<close> of the source.
\<close>

definition pass2_step ::
  "(byte list \<Rightarrow> ustring) \<Rightarrow> (nat \<Rightarrow> ustring) \<Rightarrow> (nat \<rightharpoonup> nat) \<Rightarrow> (nat \<rightharpoonup> ustring)
    \<Rightarrow> byte list \<Rightarrow> p2state \<Rightarrow> p2state loop_ctl" where
  "pass2_step dec frepr functions labels data s0 =
     (let s = label_line labels (function_start functions s0);
          pos = p2_pos s0; inst_addr = pos; opcode = unat (data ! pos) in
      if opcode > HCB_LAST_OPCODE then Continue (s\<lparr>p2_pos := pos + 1\<rparr>)
      else
        (case get_opcode_info opcode of
           None \<Rightarrow> Continue (s\<lparr>p2_pos := pos + 1\<rparr>)
         | Some (name, arg_type) \<Rightarrow>
            let pos = pos + 1 in
            (case arg_type of
               OPARG_NULL \<Rightarrow> Continue (emit s pos (lit ''  '' @ lit name))
             | OPARG_X32 \<Rightarrow>
                 (if pos + 4 > length data then Break (s\<lparr>p2_pos := pos\<rparr>)
                  else
                    let val = unpack_le (take 4 (drop pos data)) in
                    Continue (emit s (pos + 4) (x32_line frepr functions labels name val)))
             | OPARG_I32 \<Rightarrow>
                 (if pos + 4 > length data then Break (s\<lparr>p2_pos := pos\<rparr>)
                  else
                    let val = unpack_signed (take 4 (drop pos data)) in
                    Continue (emit s (pos + 4) (lit ''  '' @ lit name @ lit '' '' @ str_int val)))
             | OPARG_I16 \<Rightarrow>
                 (if pos + 2 > length data then Break (s\<lparr>p2_pos := pos\<rparr>)
                  else
                    let val = unpack_signed (take 2 (drop pos data)) in
                    Continue (emit s (pos + 2) (lit ''  '' @ lit name @ lit '' '' @ str_int val)))
             | OPARG_I8 \<Rightarrow>
                 (if pos \<ge> length data then Break (s\<lparr>p2_pos := pos\<rparr>)
                  else
                    let val = unpack_signed (take 1 (drop pos data)) in
                    Continue (emit s (pos + 1) (lit ''  '' @ lit name @ lit '' '' @ str_int val)))
             | OPARG_I8I8 \<Rightarrow>
                 (if pos + 2 > length data then Break (s\<lparr>p2_pos := pos\<rparr>)
                  else
                    let val1 = unpack_signed (take 1 (drop pos data));
                        val2 = unpack_signed (take 1 (drop (pos + 1) data)) in
                    Continue (emit s (pos + 2)
                      (lit ''  '' @ lit name @ lit '' '' @ str_int val1 @ lit '', '' @ str_int val2)))
             | OPARG_STRING \<Rightarrow>
                 (if pos \<ge> length data then Break (s\<lparr>p2_pos := pos\<rparr>)
                  else
                    let str_len = unat (data ! pos); pos = pos + 1 in
                    if pos + str_len > length data then Break (s\<lparr>p2_pos := pos\<rparr>)
                    else
                      let string = rstrip_nul (dec (take str_len (drop pos data)));
                          pos = pos + str_len;
                          escaped = escape_script string;
                          s1 = emit s pos
                            (lit ''  '' @ lit name @ lit '' '' @ [34] @ escaped @ [34]
                              @ lit ''  ; [STR_'' @ fmt_04d (p2_string_id s) @ lit '']'')
                      in Continue (s1\<lparr>p2_strings_list :=
                                        p2_strings_list s1 @ [(p2_string_id s, inst_addr, string)],
                                      p2_string_id := p2_string_id s + 1\<rparr>)))))"

lemma p2_pos_function_start: "p2_pos (function_start functions s) = p2_pos s"
  by (simp add: function_start_def split: option.split)

lemma p2_pos_label_line: "p2_pos (label_line labels s) = p2_pos s"
  by (simp add: label_line_def split: option.split)

lemma pass2_step_pos:
  "pass2_step dec frepr functions labels data s = Continue s' \<Longrightarrow> p2_pos s < p2_pos s'"
  unfolding pass2_step_def Let_def emit_def
  by (auto simp: p2_pos_function_start p2_pos_label_line
      split: if_split_asm option.split_asm prod.split_asm oparg.split_asm)

function pass2_loop ::
  "(byte list \<Rightarrow> ustring) \<Rightarrow> (nat \<Rightarrow> ustring) \<Rightarrow> (nat \<rightharpoonup> nat) \<Rightarrow> (nat \<rightharpoonup> ustring)
    \<Rightarrow> byte list \<Rightarrow> nat \<Rightarrow> p2state \<Rightarrow> p2state" where
  "pass2_loop dec frepr functions labels data code_end s =
     (if p2_pos s < code_end then
        (if p2_pos s \<ge> length data then s
         else
           (case pass2_step dec frepr functions labels data s of
              Break s' \<Rightarrow> s'
            | Continue s' \<Rightarrow> pass2_loop dec frepr functions labels data code_end s'))
      else s)"
  by pat_completeness auto
termination
  by (relation "measure (\<lambda>(dec, frepr, functions, labels, data, code_end, s). code_end - p2_pos s)")
    (simp_all add: diff_less_mono2 pass2_step_pos)

declare pass2_loop.simps [simp del]

text \<open>
  The state of the second loop after \<open>n\<close> complete iterations from \<open>s\<close>; \<open>None\<close> when the
  loop ends or breaks before that.
\<close>

fun pass2_iterations ::
  "nat \<Rightarrow> (byte list \<Rightarrow> ustring) \<Rightarrow> (nat \<Rightarrow> ustring) \<Rightarrow> (nat \<rightharpoonup> nat) \<Rightarrow> (nat \<rightharpoonup> ustring)
    \<Rightarrow> byte list \<Rightarrow> nat \<Rightarrow> p2state \<Rightarrow> p2state option" where
  "pass2_iterations 0 dec frepr functions labels data code_end s = Some s"
| "pass2_iterations (Suc n) dec frepr functions labels data code_end s =
     (if p2_pos s < code_end \<and> p2_pos s < length data then
        (case pass2_step dec frepr functions labels data s of
           Continue s' \<Rightarrow> pass2_iterations n dec frepr functions labels data code_end s'
         | Break s' \<Rightarrow> None)
      else None)"

text \<open>
  \<^verbatim>\<open>hcb_decode\<close>: the lines written to the listing (joined with newlines by the source) and
  the lines of the strings file, or the exception.
\<close>

definition strings_file_line :: "nat \<times> nat \<times> ustring \<Rightarrow> ustring" where
  "strings_file_line r =
     (case r of (sid, addr, txt) \<Rightarrow>
        fmt_04d sid @ lit ''|0x'' @ fmt_08X addr @ lit ''|'' @ escape_table txt)"

record decoded =
  listing :: "ustring list"
  strings_file :: "ustring list"

definition hcb_decode ::
  "(byte list \<Rightarrow> ustring) \<Rightarrow> (nat \<Rightarrow> ustring) \<Rightarrow> byte list \<Rightarrow> py_error + decoded" where
  "hcb_decode dec frepr data =
     (if length data < 4 then Inl ValueError
      else
        let entry_point = unpack_le (take 4 data);
            code_end = entry_point;
            s1 = pass1 data code_end;
            s2 = pass2_loop dec frepr (p1_functions s1) (p1_labels s1) data code_end
                   \<lparr>p2_pos = 4, p2_current_func = - 1, p2_string_id = 0, p2_lines = [],
                    p2_strings_list = []\<rparr>;
            lines = p2_lines s2 @ [[], lit ''# ENTRY_POINT: 0x'' @ fmt_08X entry_point]
        in Inr \<lparr>listing = lines, strings_file = map strings_file_line (p2_strings_list s2)\<rparr>)"

subsection \<open>Codecs used to run the model\<close>

text \<open>
  To run the model on concrete files the three library parameters are instantiated on the
  ASCII range, where cp932 is the identity: \<open>ascii_encode\<close> returns the bytes of a text of
  code points below 128 and otherwise the offsets of its first other character, as the
  strict cp932 encoder does when that character is outside cp932 (U+00E9 is);
  \<open>ascii_decode\<close> maps a byte below 128 to its code point and any other byte to U+FFFD;
  \<open>no_float\<close> renders no float and is used on files without \<^verbatim>\<open>pushfloat\<close>. Theorems about
  every file quantify over the parameters instead.
\<close>

fun first_non_ascii :: "ustring \<Rightarrow> nat \<Rightarrow> nat option" where
  "first_non_ascii [] i = None"
| "first_non_ascii (c # cs) i = (if c < 128 then first_non_ascii cs (i + 1) else Some i)"

definition ascii_encode :: encoder where
  "ascii_encode t =
     (case first_non_ascii t 0 of
        None \<Rightarrow> Inr (map of_nat t)
      | Some i \<Rightarrow> Inl (i, i + 1))"

definition ascii_decode :: "byte list \<Rightarrow> ustring" where
  "ascii_decode bs = map (\<lambda>b. if unat b < 128 then unat b else 65533) bs"

definition no_float :: "nat \<Rightarrow> ustring" where
  "no_float v = []"

section \<open>Properties\<close>

lemma replicate_numeral_unfold: "replicate (numeral k) x = x # replicate (pred_numeral k) x"
  by (simp add: numeral_eq_Suc)

lemmas table_eval = get_opcode_info_def HCB_OPCODES_def HCB_LAST_OPCODE_def

lemmas fmt_eval = lit_def fmt_08X_def fmt_08x_def fmt_04d_def zero_pad_def hex_nat.simps
  hex_digit_def str_nat.simps str_int_def replicate_numeral_unfold

lemmas rebuild_eval = hcb_rebuild_def rebuild_loop.simps rebuild_step_def table_eval
  new_string_def keep_size_def ensure_nul_def py_slice_to_def ascii_encode_def pack_I_def
  Let_def

subsection \<open>Escaping of the string table\<close>

text \<open>
  C2. The claim is that unescaping the escaped form of a text returns the text. The three
  replacements of the rebuilder run one after the other over the whole line, so the
  second character of an escaped backslash can pair with a following \<open>n\<close>: the text made
  of a backslash and the letter \<open>n\<close> is written as two backslashes and \<open>n\<close>, and read
  back as a backslash and a newline.
\<close>

theorem table_escape_roundtrip_fails:
  "escape_table [92, 110] = [92, 92, 110]
   \<and> unescape_table (escape_table [92, 110]) = [92, 10]
   \<and> unescape_table (escape_table [92, 110]) \<noteq> [92, 110]"
  by (simp add: unescape_table_def escape_table_def)

subsection \<open>Rebuilding with no replacement\<close>

text \<open>
  C3. With an empty replacement map the rebuilder writes the bytes it read, whatever the
  file is.
\<close>

theorem rebuild_empty_map_identity: "hcb_rebuild enc data [] = Inr (data, [])"
  by (simp add: hcb_rebuild_def)

subsection \<open>When the decoder fails\<close>

lemma pass1_empty_code:
  "code_end \<le> 4 \<Longrightarrow>
   pass1 data code_end =
     \<lparr>p1_pos = 4, p1_func_num = 0, p1_functions = Map.empty, p1_labels = Map.empty\<rparr>"
  by (simp add: pass1_def pass1_loop.simps)

lemma pass2_empty_code:
  "code_end \<le> p2_pos s \<Longrightarrow> pass2_loop dec frepr functions labels data code_end s = s"
  by (simp add: pass2_loop.simps)

text \<open>
  C6, as stated, fails: a file whose entry point is 0 is decoded, and the listing holding
  the blank line and the trailer is written.
\<close>

theorem decode_entry_point_zero:
  "hcb_decode ascii_decode no_float [0, 0, 0, 0]
     = Inr \<lparr>listing = [[], lit ''# ENTRY_POINT: 0x00000000''], strings_file = []\<rparr>"
  apply (simp add: hcb_decode_def Let_def pass1_empty_code pass2_empty_code)
  apply (simp add: fmt_eval)
  done

text \<open>
  C6, amended: the decoder raises exactly when the file has fewer than 4 bytes, and writes
  its output for every other file; when the entry point is at or below 4 the output is
  the blank line and the trailer.
\<close>

theorem decode_fails_iff_short_file:
  "(hcb_decode dec frepr data = Inl ValueError \<longleftrightarrow> length data < 4)
   \<and> ((\<exists>out. hcb_decode dec frepr data = Inr out) \<longleftrightarrow> 4 \<le> length data)
   \<and> (4 \<le> length data \<and> unpack_le (take 4 data) \<le> 4 \<longrightarrow>
        hcb_decode dec frepr data =
          Inr \<lparr>listing = [[], lit ''# ENTRY_POINT: 0x'' @ fmt_08X (unpack_le (take 4 data))],
               strings_file = []\<rparr>)"
  by (simp add: hcb_decode_def Let_def pass1_empty_code pass2_empty_code)

theorem decode_fails_iff_short_file_witness:
  "4 \<le> length [4, 0, 0, 0, 9 :: byte] \<and> unpack_le (take 4 [4, 0, 0, 0, 9]) \<le> 4
   \<and> hcb_decode ascii_decode no_float [4, 0, 0, 0, 9]
        = Inr \<lparr>listing = [[], lit ''# ENTRY_POINT: 0x00000004''], strings_file = []\<rparr>
   \<and> hcb_decode ascii_decode no_float [4, 0, 0] = Inl ValueError"
  using decode_fails_iff_short_file [of ascii_decode no_float "[4, 0, 0, 0, 9]"]
    decode_fails_iff_short_file [of ascii_decode no_float "[4, 0, 0]"]
  by (simp add: fmt_eval)

subsection \<open>Facts about the opcode table\<close>

lemma opcode_lt_40: "get_opcode_info op = Some (name, a) \<Longrightarrow> op < 40"
  by (simp add: get_opcode_info_def HCB_LAST_OPCODE_def split: if_splits)

lemma opcode_cases:
  assumes "get_opcode_info op = Some (name, a)"
  shows "(name \<in> {''jmp'', ''jmpcond'', ''call''} \<longrightarrow> op \<in> {2, 6, 7})
       \<and> (op \<in> {2, 6, 7} \<longrightarrow> name \<in> {''jmp'', ''jmpcond'', ''call''} \<and> a = OPARG_X32)
       \<and> (a = OPARG_STRING \<longrightarrow> op = 14)
       \<and> (name = ''initstack'' \<longrightarrow> op = 1)"
proof -
  have "op < 40" using assms by (rule opcode_lt_40)
  then show ?thesis using assms
    by (auto simp: table_eval eval_nat_numeral less_Suc_eq)
qed

subsection \<open>Labels of the first pass\<close>

lemma pass1_step_labels_dom:
  "a \<in> dom (p1_labels (pass1_step data code_end s)) \<Longrightarrow>
   a \<in> dom (p1_labels s) \<or> a < code_end"
  by (auto simp: pass1_step_def Let_def split: option.splits prod.splits oparg.splits if_splits)

lemma pass1_loop_labels_below:
  "\<forall>a \<in> dom (p1_labels s). a < code_end \<Longrightarrow>
   \<forall>a \<in> dom (p1_labels (pass1_loop data code_end s)). a < code_end"
proof (induction data code_end s rule: pass1_loop.induct)
  case (1 data code_end s)
  show ?case
  proof (cases "p1_pos s < code_end \<and> p1_pos s < length data")
    case True
    have "\<forall>a \<in> dom (p1_labels (pass1_step data code_end s)). a < code_end"
      using "1.prems" pass1_step_labels_dom [of _ data code_end s] by blast
    then have "\<forall>a \<in> dom (p1_labels (pass1_loop data code_end (pass1_step data code_end s))).
        a < code_end"
      using True "1.IH" by simp
    then show ?thesis using True by (subst pass1_loop.simps) simp
  next
    case False
    then show ?thesis using "1.prems" by (subst pass1_loop.simps) auto
  qed
qed

text \<open>
  C5, as stated, fails: the source tests only \<^verbatim>\<open>target < code_end\<close>, so a jump into the
  4-byte header gets a label. The file holds \<^verbatim>\<open>jmp 0\<close> with entry point 9.
\<close>

theorem label_below_header:
  "p1_labels (pass1 [9, 0, 0, 0, 6, 0, 0, 0, 0] 9) 0 = Some (lit ''label_00000000'')"
  apply (simp add: pass1_def pass1_loop.simps pass1_step_def table_eval Let_def)
  apply (simp add: fmt_eval)
  done

text \<open>
  C5, amended: at a \<^verbatim>\<open>call\<close>, \<^verbatim>\<open>jmp\<close> or \<^verbatim>\<open>jmpcond\<close> (opcodes 2, 6, 7) the first pass
  allocates a label at the decoded target exactly when the four operand bytes are inside
  the file, the target is below the entry point and the target is neither a label nor a
  function recorded so far; there is no lower bound. No other instruction changes the
  labels, and no label of the first pass is at or beyond the entry point.
\<close>

theorem label_allocation:
  "(unat (data ! p1_pos s) \<in> {2, 6, 7} \<longrightarrow>
      p1_labels (pass1_step data code_end s) =
        (let target = unpack_le (take 4 (drop (p1_pos s + 1) data)) in
         if p1_pos s + 5 \<le> length data \<and> target < code_end
            \<and> p1_labels s target = None \<and> p1_functions s target = None
         then (p1_labels s)(target \<mapsto> lit ''label_'' @ fmt_08x target)
         else p1_labels s))
   \<and> (unat (data ! p1_pos s) \<notin> {2, 6, 7} \<longrightarrow>
        p1_labels (pass1_step data code_end s) = p1_labels s)
   \<and> (\<forall>a \<in> dom (p1_labels (pass1 data code_end)). a < code_end)"
proof (intro conjI impI)
  assume "unat (data ! p1_pos s) \<in> {2, 6, 7}"
  then show "p1_labels (pass1_step data code_end s) =
        (let target = unpack_le (take 4 (drop (p1_pos s + 1) data)) in
         if p1_pos s + 5 \<le> length data \<and> target < code_end
            \<and> p1_labels s target = None \<and> p1_functions s target = None
         then (p1_labels s)(target \<mapsto> lit ''label_'' @ fmt_08x target)
         else p1_labels s)"
    by (auto simp: pass1_step_def table_eval Let_def)
next
  assume other: "unat (data ! p1_pos s) \<notin> {2, 6, 7}"
  show "p1_labels (pass1_step data code_end s) = p1_labels s"
  proof (cases "get_opcode_info (unat (data ! p1_pos s))")
    case None
    then show ?thesis by (simp add: pass1_step_def Let_def)
  next
    case (Some na)
    obtain name a where na: "na = (name, a)" by (cases na)
    have "name \<notin> {''jmp'', ''jmpcond'', ''call''}"
      using opcode_cases [of "unat (data ! p1_pos s)" name a] Some na other by blast
    then show ?thesis using Some na
      by (simp add: pass1_step_def Let_def split: oparg.split)
  qed
next
  show "\<forall>a \<in> dom (p1_labels (pass1 data code_end)). a < code_end"
    unfolding pass1_def by (rule pass1_loop_labels_below) simp
qed

theorem label_allocation_witness:
  "unat ([10, 0, 0, 0, 6, 9, 0, 0, 0, 4 :: byte] ! 4) \<in> {2, 6, 7}
   \<and> p1_labels (pass1_step [10, 0, 0, 0, 6, 9, 0, 0, 0, 4] 10
         \<lparr>p1_pos = 4, p1_func_num = 0, p1_functions = Map.empty, p1_labels = Map.empty\<rparr>)
       = [9 \<mapsto> lit ''label_00000009'']
   \<and> 9 \<in> dom (p1_labels (pass1 [10, 0, 0, 0, 6, 9, 0, 0, 0, 4] 10)) \<and> (9 :: nat) < 10"
proof -
  let ?d = "[10, 0, 0, 0, 6, 9, 0, 0, 0, 4] :: byte list"
  let ?s = "\<lparr>p1_pos = 4, p1_func_num = 0, p1_functions = Map.empty, p1_labels = Map.empty\<rparr>"
  note inst = label_allocation [of ?d ?s 10]
  have op: "unat (?d ! p1_pos ?s) \<in> {2, 6, 7}" by simp
  have tgt: "unpack_le (take 4 (drop (p1_pos ?s + 1) ?d)) = 9" by simp
  have name: "lit ''label_'' @ fmt_08x 9 = lit ''label_00000009''" by (simp add: fmt_eval)
  have "p1_labels (pass1_step ?d 10 ?s) =
      (let target = unpack_le (take 4 (drop (p1_pos ?s + 1) ?d)) in
       if p1_pos ?s + 5 \<le> length ?d \<and> target < 10
          \<and> p1_labels ?s target = None \<and> p1_functions ?s target = None
       then (p1_labels ?s)(target \<mapsto> lit ''label_'' @ fmt_08x target)
       else p1_labels ?s)"
    using inst op by blast
  then have step: "p1_labels (pass1_step ?d 10 ?s) = [9 \<mapsto> lit ''label_00000009'']"
    unfolding tgt Let_def name by simp
  have run: "p1_labels (pass1 ?d 10) 9 = Some (lit ''label_00000009'')"
    apply (simp add: pass1_def pass1_loop.simps pass1_step_def table_eval Let_def)
    apply (simp add: fmt_eval)
    done
  then have mem: "9 \<in> dom (p1_labels (pass1 ?d 10))" by (simp add: dom_def)
  then have "(9 :: nat) < 10" using inst by blast
  then show ?thesis using step mem by simp
qed

subsection \<open>Unknown opcodes\<close>

text \<open>
  C8. At a position of the code section that holds a byte above \<^verbatim>\<open>HCB_LAST_OPCODE\<close>, each
  of the three traversals (first pass, second pass, rebuilder) takes a step that moves
  the cursor by one byte and reads no argument, raises nothing, and goes on with the
  loop at the next byte. The rebuilder copies the byte; the second pass emits at most the
  function header and label of the address.
\<close>

theorem unknown_opcode_one_byte:
  assumes "p < code_end" and "p < length data" and "HCB_LAST_OPCODE < unat (data ! p)"
  shows "(p1_pos s1 = p \<longrightarrow>
            pass1_step data code_end s1 = s1\<lparr>p1_pos := p + 1\<rparr>
          \<and> pass1_loop data code_end s1 = pass1_loop data code_end (s1\<lparr>p1_pos := p + 1\<rparr>))
       \<and> (p2_pos s2 = p \<longrightarrow>
            pass2_step dec frepr functions labels data s2
              = Continue ((label_line labels (function_start functions s2))\<lparr>p2_pos := p + 1\<rparr>)
          \<and> pass2_loop dec frepr functions labels data code_end s2
              = pass2_loop dec frepr functions labels data code_end
                  ((label_line labels (function_start functions s2))\<lparr>p2_pos := p + 1\<rparr>))
       \<and> (r_pos rs = p \<longrightarrow>
            rebuild_step enc replacements data rs
              = Inr (rs\<lparr>r_pos := p + 1, r_new_code := r_new_code rs @ [data ! p]\<rparr>)
          \<and> rebuild_loop enc replacements data code_end rs
              = rebuild_loop enc replacements data code_end
                  (rs\<lparr>r_pos := p + 1, r_new_code := r_new_code rs @ [data ! p]\<rparr>))"
proof (intro conjI impI)
  assume p: "p1_pos s1 = p"
  show step: "pass1_step data code_end s1 = s1\<lparr>p1_pos := p + 1\<rparr>"
    using assms p by (simp add: pass1_step_def Let_def)
  show "pass1_loop data code_end s1 = pass1_loop data code_end (s1\<lparr>p1_pos := p + 1\<rparr>)"
    using assms p step by (subst pass1_loop.simps) simp
next
  assume p: "p2_pos s2 = p"
  show step: "pass2_step dec frepr functions labels data s2
      = Continue ((label_line labels (function_start functions s2))\<lparr>p2_pos := p + 1\<rparr>)"
    using assms p by (simp add: pass2_step_def Let_def)
  show "pass2_loop dec frepr functions labels data code_end s2
      = pass2_loop dec frepr functions labels data code_end
          ((label_line labels (function_start functions s2))\<lparr>p2_pos := p + 1\<rparr>)"
    using assms p step by (subst pass2_loop.simps) simp
next
  assume p: "r_pos rs = p"
  show step: "rebuild_step enc replacements data rs
      = Inr (rs\<lparr>r_pos := p + 1, r_new_code := r_new_code rs @ [data ! p]\<rparr>)"
    using assms p by (simp add: rebuild_step_def Let_def)
  show "rebuild_loop enc replacements data code_end rs
      = rebuild_loop enc replacements data code_end
          (rs\<lparr>r_pos := p + 1, r_new_code := r_new_code rs @ [data ! p]\<rparr>)"
    using assms p step by (subst rebuild_loop.simps) simp
qed

theorem unknown_opcode_one_byte_witness:
  "(4 :: nat) < 6 \<and> 4 < length [6, 0, 0, 0, 255, 4 :: byte]
   \<and> HCB_LAST_OPCODE < unat ([6, 0, 0, 0, 255, 4 :: byte] ! 4)
   \<and> pass1_loop [6, 0, 0, 0, 255, 4] 6
        \<lparr>p1_pos = 4, p1_func_num = 0, p1_functions = Map.empty, p1_labels = Map.empty\<rparr>
      = \<lparr>p1_pos = 6, p1_func_num = 0, p1_functions = Map.empty, p1_labels = Map.empty\<rparr>
   \<and> pass2_loop ascii_decode no_float Map.empty Map.empty [6, 0, 0, 0, 255, 4] 6
        \<lparr>p2_pos = 4, p2_current_func = - 1, p2_string_id = 0, p2_lines = [],
         p2_strings_list = []\<rparr>
      = \<lparr>p2_pos = 6, p2_current_func = - 1, p2_string_id = 0, p2_lines = [lit ''  ret''],
         p2_strings_list = []\<rparr>
   \<and> rebuild_loop ascii_encode [(4, [120])] [6, 0, 0, 0, 255, 4] 6
        \<lparr>r_pos = 4, r_new_code = [], r_warnings = []\<rparr>
      = Inr \<lparr>r_pos = 6, r_new_code = [255, 4], r_warnings = []\<rparr>"
  using unknown_opcode_one_byte [of 4 6 "[6, 0, 0, 0, 255, 4]"
      "\<lparr>p1_pos = 4, p1_func_num = 0, p1_functions = Map.empty, p1_labels = Map.empty\<rparr>"
      "\<lparr>p2_pos = 4, p2_current_func = - 1, p2_string_id = 0, p2_lines = [],
         p2_strings_list = []\<rparr>"
      ascii_decode no_float Map.empty Map.empty
      "\<lparr>r_pos = 4, r_new_code = [], r_warnings = []\<rparr>" ascii_encode "[(4, [120])]"]
  apply (simp add: HCB_LAST_OPCODE_def)
  apply (simp add: pass1_loop.simps pass1_step_def pass2_loop.simps pass2_step_def
      rebuild_loop.simps rebuild_step_def table_eval Let_def emit_def label_line_def
      function_start_def lit_def)
  done

subsection \<open>Lines of the listing at an unknown opcode\<close>

lemma pass1_step_functions:
  "p1_functions (pass1_step data code_end s) a = Some n \<Longrightarrow>
   p1_functions s a = Some n \<or> (a = p1_pos s \<and> unat (data ! a) = 1)"
proof (cases "get_opcode_info (unat (data ! p1_pos s))")
  case None
  then show "p1_functions (pass1_step data code_end s) a = Some n \<Longrightarrow> ?thesis"
    by (simp add: pass1_step_def Let_def split: if_splits)
next
  case (Some na)
  obtain name arg where na: "na = (name, arg)" by (cases na)
  have init: "name = ''initstack'' \<Longrightarrow> unat (data ! p1_pos s) = 1"
    using opcode_cases [of "unat (data ! p1_pos s)" name arg] Some na by simp
  show "p1_functions (pass1_step data code_end s) a = Some n \<Longrightarrow> ?thesis"
    using Some na init
    by (auto simp: pass1_step_def Let_def split: oparg.splits if_splits)
qed

lemma pass1_loop_functions:
  "\<forall>a n. p1_functions s a = Some n \<longrightarrow> a < length data \<and> unat (data ! a) = 1 \<Longrightarrow>
   p1_functions (pass1_loop data code_end s) a = Some n \<Longrightarrow>
   a < length data \<and> unat (data ! a) = 1"
proof (induction data code_end s rule: pass1_loop.induct)
  case (1 data code_end s)
  show ?case
  proof (cases "p1_pos s < code_end \<and> p1_pos s < length data")
    case True
    have inv: "\<forall>a n. p1_functions (pass1_step data code_end s) a = Some n
        \<longrightarrow> a < length data \<and> unat (data ! a) = 1"
      using "1.prems"(1) True pass1_step_functions [of data code_end s] by blast
    have "p1_functions (pass1_loop data code_end (pass1_step data code_end s)) a = Some n"
      using "1.prems"(2) True by (subst (asm) pass1_loop.simps) simp
    then show ?thesis using "1.IH" True inv by simp
  next
    case False
    then have "pass1_loop data code_end s = s" by (subst pass1_loop.simps) auto
    then show ?thesis using "1.prems" by simp
  qed
qed

lemma pass1_functions_initstack:
  assumes "p1_functions (pass1 data code_end) a = Some n"
  shows "a < length data \<and> unat (data ! a) = 1"
proof (rule pass1_loop_functions)
  show "\<forall>a n. p1_functions \<lparr>p1_pos = 4, p1_func_num = 0, p1_functions = Map.empty,
      p1_labels = Map.empty\<rparr> a = Some n \<longrightarrow> a < length data \<and> unat (data ! a) = 1"
    by simp
  show "p1_functions (pass1_loop data code_end \<lparr>p1_pos = 4, p1_func_num = 0,
      p1_functions = Map.empty, p1_labels = Map.empty\<rparr>) a = Some n"
    using assms by (simp add: pass1_def)
qed

lemma unknown_step_lines:
  assumes "HCB_LAST_OPCODE < unat (data ! p2_pos s)"
  shows "\<exists>s'. pass2_step dec frepr functions labels data s = Continue s'
           \<and> p2_strings_list s' = p2_strings_list s
           \<and> p2_string_id s' = p2_string_id s
           \<and> p2_lines s' = p2_lines (label_line labels (function_start functions s))
           \<and> (functions (p2_pos s) = None \<and> labels (p2_pos s) = None
                \<longrightarrow> p2_lines s' = p2_lines s)"
  using assms
  by (simp add: pass2_step_def Let_def label_line_def function_start_def
      split: option.split)

lemma pass2_headers_keep_strings:
  "p2_strings_list (label_line labels (function_start functions s)) = p2_strings_list s"
  by (simp add: label_line_def function_start_def split: option.split)

lemma known_step_lines:
  assumes "unat (data ! p2_pos s) \<le> HCB_LAST_OPCODE"
  shows "(pass2_step dec frepr functions labels data s = Continue s' \<longrightarrow>
            (\<exists>line. p2_lines s' = p2_lines (label_line labels (function_start functions s)) @ [line]))
       \<and> (pass2_step dec frepr functions labels data s = Break s' \<longrightarrow>
            p2_lines s' = p2_lines (label_line labels (function_start functions s))
          \<and> p2_strings_list s' = p2_strings_list s)"
proof -
  have known: "\<not> HCB_LAST_OPCODE < unat (data ! p2_pos s)" using assms by simp
  have some: "get_opcode_info (unat (data ! p2_pos s)) \<noteq> None"
    using assms by (simp add: get_opcode_info_def)
  show ?thesis
    using known some unfolding pass2_step_def Let_def emit_def
    by (auto simp: pass2_headers_keep_strings
        split: if_split_asm option.split_asm prod.split_asm oparg.split_asm)
qed

lemma header_without_function:
  "functions (p2_pos s) = None \<Longrightarrow>
   p2_lines (label_line labels (function_start functions s))
     = p2_lines s @ (case labels (p2_pos s) of None \<Rightarrow> [] | Some l \<Rightarrow> [l @ lit '':''])"
  by (simp add: label_line_def function_start_def split: option.split)

text \<open>
  C10, as stated, fails. The iteration of the second pass at an unknown byte can emit a
  line: when the byte is a jump target, the label line of its address is appended before
  the opcode is read (first file: \<^verbatim>\<open>jmp 9\<close>, then the byte FF at address 9). And a known
  instruction does not always get a line: a truncated one gets none (second file:
  \<^verbatim>\<open>pushint\<close> with two of its four argument bytes).
\<close>

theorem unknown_byte_gets_label_line:
  "hcb_decode ascii_decode no_float [10, 0, 0, 0, 6, 9, 0, 0, 0, 255]
     = Inr \<lparr>listing = [lit ''  jmp label_00000009'', lit ''label_00000009:'', [],
                        lit ''# ENTRY_POINT: 0x0000000A''],
            strings_file = []\<rparr>
   \<and> pass2_step ascii_decode no_float Map.empty [9 \<mapsto> lit ''label_00000009'']
        [10, 0, 0, 0, 6, 9, 0, 0, 0, 255]
        \<lparr>p2_pos = 9, p2_current_func = - 1, p2_string_id = 0,
         p2_lines = [lit ''  jmp label_00000009''], p2_strings_list = []\<rparr>
     = Continue \<lparr>p2_pos = 10, p2_current_func = - 1, p2_string_id = 0,
         p2_lines = [lit ''  jmp label_00000009'', lit ''label_00000009:''],
         p2_strings_list = []\<rparr>
   \<and> hcb_decode ascii_decode no_float [9, 0, 0, 0, 10, 1, 2]
     = Inr \<lparr>listing = [[], lit ''# ENTRY_POINT: 0x00000009''], strings_file = []\<rparr>"
proof -
  let ?d = "[10, 0, 0, 0, 6, 9, 0, 0, 0, 255] :: byte list"
  let ?e = "[9, 0, 0, 0, 10, 1, 2] :: byte list"
  let ?init = "\<lparr>p2_pos = 4, p2_current_func = - 1, p2_string_id = 0, p2_lines = [],
      p2_strings_list = []\<rparr>"
  have name: "lit ''label_'' @ fmt_08x 9 = lit ''label_00000009''" by (simp add: fmt_eval)
  have p1: "pass1 ?d 10 = \<lparr>p1_pos = 10, p1_func_num = 0, p1_functions = Map.empty,
      p1_labels = [9 \<mapsto> lit ''label_00000009'']\<rparr>"
    by (simp add: pass1_def pass1_loop.simps pass1_step_def table_eval Let_def name)
  have p2: "pass2_loop ascii_decode no_float Map.empty [9 \<mapsto> lit ''label_00000009''] ?d 10 ?init
      = \<lparr>p2_pos = 10, p2_current_func = - 1, p2_string_id = 0,
         p2_lines = [lit ''  jmp label_00000009'', lit ''label_00000009:''],
         p2_strings_list = []\<rparr>"
    by (simp add: pass2_loop.simps pass2_step_def table_eval Let_def emit_def label_line_def
        function_start_def x32_line_def lit_def)
  have tr: "lit ''# ENTRY_POINT: 0x'' @ fmt_08X 10 = lit ''# ENTRY_POINT: 0x0000000A''"
    by (simp add: fmt_eval)
  have one: "hcb_decode ascii_decode no_float ?d
     = Inr \<lparr>listing = [lit ''  jmp label_00000009'', lit ''label_00000009:'', [],
                        lit ''# ENTRY_POINT: 0x0000000A''],
            strings_file = []\<rparr>"
    by (simp add: hcb_decode_def Let_def p1 p2 tr)
  have two: "pass2_step ascii_decode no_float Map.empty [9 \<mapsto> lit ''label_00000009''] ?d
        \<lparr>p2_pos = 9, p2_current_func = - 1, p2_string_id = 0,
         p2_lines = [lit ''  jmp label_00000009''], p2_strings_list = []\<rparr>
     = Continue \<lparr>p2_pos = 10, p2_current_func = - 1, p2_string_id = 0,
         p2_lines = [lit ''  jmp label_00000009'', lit ''label_00000009:''],
         p2_strings_list = []\<rparr>"
    by (simp add: pass2_step_def table_eval Let_def label_line_def function_start_def lit_def)
  have q1: "pass1 ?e 9 = \<lparr>p1_pos = 9, p1_func_num = 0, p1_functions = Map.empty,
      p1_labels = Map.empty\<rparr>"
    by (simp add: pass1_def pass1_loop.simps pass1_step_def table_eval Let_def)
  have q2: "pass2_loop ascii_decode no_float Map.empty Map.empty ?e 9 ?init
      = \<lparr>p2_pos = 5, p2_current_func = - 1, p2_string_id = 0, p2_lines = [],
         p2_strings_list = []\<rparr>"
    by (simp add: pass2_loop.simps pass2_step_def table_eval Let_def emit_def label_line_def
        function_start_def)
  have tr9: "lit ''# ENTRY_POINT: 0x'' @ fmt_08X 9 = lit ''# ENTRY_POINT: 0x00000009''"
    by (simp add: fmt_eval)
  have three: "hcb_decode ascii_decode no_float ?e
     = Inr \<lparr>listing = [[], lit ''# ENTRY_POINT: 0x00000009''], strings_file = []\<rparr>"
    by (simp add: hcb_decode_def Let_def q1 q2 tr9)
  show ?thesis using one two three by simp
qed

text \<open>
  C10, amended: in the second pass the iteration at a byte above \<^verbatim>\<open>HCB_LAST_OPCODE\<close> moves
  the cursor by one and emits no instruction line, marker or raw-byte record and no
  string record; the only line it can add is the label line of its address, when the
  address is a recorded jump target (a function header cannot occur there, since the
  first pass records a function only at an \<^verbatim>\<open>initstack\<close> byte). A known instruction that is
  decoded emits exactly one line after the header lines of its address; a truncated one
  emits none and ends the pass.
\<close>

theorem unknown_opcode_adds_only_label:
  "(HCB_LAST_OPCODE < unat (data ! p2_pos s) \<longrightarrow>
      (\<exists>s1. pass2_step dec frepr functions labels data s = Continue s1
           \<and> p2_pos s1 = p2_pos s + 1
           \<and> p2_strings_list s1 = p2_strings_list s
           \<and> p2_string_id s1 = p2_string_id s
           \<and> p2_lines s1 = p2_lines (label_line labels (function_start functions s))))
   \<and> (functions (p2_pos s) = None \<longrightarrow>
        p2_lines (label_line labels (function_start functions s))
          = p2_lines s @ (case labels (p2_pos s) of None \<Rightarrow> [] | Some l \<Rightarrow> [l @ lit '':'']))
   \<and> (p1_functions (pass1 data code_end) a = Some n \<longrightarrow>
        a < length data \<and> unat (data ! a) = 1)
   \<and> (unat (data ! p2_pos s) \<le> HCB_LAST_OPCODE
        \<and> pass2_step dec frepr functions labels data s = Continue s' \<longrightarrow>
        (\<exists>line. p2_lines s' = p2_lines (label_line labels (function_start functions s)) @ [line]))
   \<and> (unat (data ! p2_pos s) \<le> HCB_LAST_OPCODE
        \<and> pass2_step dec frepr functions labels data s = Break s' \<longrightarrow>
        p2_lines s' = p2_lines (label_line labels (function_start functions s))
      \<and> p2_strings_list s' = p2_strings_list s)"
proof -
  have u: "HCB_LAST_OPCODE < unat (data ! p2_pos s) \<longrightarrow>
      (\<exists>s1. pass2_step dec frepr functions labels data s = Continue s1
           \<and> p2_pos s1 = p2_pos s + 1
           \<and> p2_strings_list s1 = p2_strings_list s
           \<and> p2_string_id s1 = p2_string_id s
           \<and> p2_lines s1 = p2_lines (label_line labels (function_start functions s)))"
    by (simp add: pass2_step_def Let_def label_line_def function_start_def
        split: option.split)
  show ?thesis
    using u header_without_function [of "functions" s "labels"]
      pass1_functions_initstack [of data code_end a n]
      known_step_lines [of data s dec frepr "functions" "labels" s']
    by blast
qed

theorem unknown_opcode_adds_only_label_witness:
  "HCB_LAST_OPCODE < unat ([10, 0, 0, 0, 6, 9, 0, 0, 0, 255 :: byte] ! 9)
   \<and> (\<exists>s1. pass2_step ascii_decode no_float Map.empty [9 \<mapsto> lit ''label_00000009'']
              [10, 0, 0, 0, 6, 9, 0, 0, 0, 255]
              \<lparr>p2_pos = 9, p2_current_func = - 1, p2_string_id = 0,
               p2_lines = [lit ''  jmp label_00000009''], p2_strings_list = []\<rparr> = Continue s1
            \<and> p2_pos s1 = 10 \<and> p2_strings_list s1 = []
            \<and> p2_lines s1 = [lit ''  jmp label_00000009'', lit ''label_00000009:''])
   \<and> p1_functions (pass1 [9, 0, 0, 0, 1, 2, 3, 10, 1] 9) 4 = Some 0
   \<and> (4 :: nat) < length [9, 0, 0, 0, 1, 2, 3, 10, 1 :: byte]
   \<and> unat ([9, 0, 0, 0, 1, 2, 3, 10, 1 :: byte] ! 4) = 1
   \<and> unat ([9, 0, 0, 0, 1, 2, 3, 10, 1 :: byte] ! 4) \<le> HCB_LAST_OPCODE
   \<and> pass2_step ascii_decode no_float [4 \<mapsto> 0] Map.empty [9, 0, 0, 0, 1, 2, 3, 10, 1]
        \<lparr>p2_pos = 4, p2_current_func = - 1, p2_string_id = 0, p2_lines = [],
         p2_strings_list = []\<rparr>
       = Continue \<lparr>p2_pos = 7, p2_current_func = 0, p2_string_id = 0,
           p2_lines = [lit ''# ===== FUNCTION 0 ====='', lit ''  initstack 2, 3''],
           p2_strings_list = []\<rparr>
   \<and> (\<exists>line. [lit ''# ===== FUNCTION 0 ====='', lit ''  initstack 2, 3'']
              = [lit ''# ===== FUNCTION 0 ====='' ] @ [line])
   \<and> unat ([9, 0, 0, 0, 1, 2, 3, 10, 1 :: byte] ! 7) \<le> HCB_LAST_OPCODE
   \<and> pass2_step ascii_decode no_float [4 \<mapsto> 0] Map.empty [9, 0, 0, 0, 1, 2, 3, 10, 1]
        \<lparr>p2_pos = 7, p2_current_func = 0, p2_string_id = 0,
         p2_lines = [lit ''# ===== FUNCTION 0 ====='', lit ''  initstack 2, 3''],
         p2_strings_list = []\<rparr>
       = Break \<lparr>p2_pos = 8, p2_current_func = 0, p2_string_id = 0,
           p2_lines = [lit ''# ===== FUNCTION 0 ====='', lit ''  initstack 2, 3''],
           p2_strings_list = []\<rparr>"
proof -
  let ?d = "[10, 0, 0, 0, 6, 9, 0, 0, 0, 255] :: byte list"
  let ?g = "[9, 0, 0, 0, 1, 2, 3, 10, 1] :: byte list"
  let ?L = "[9 \<mapsto> lit ''label_00000009''] :: nat \<rightharpoonup> ustring"
  let ?F = "[4 \<mapsto> 0] :: nat \<rightharpoonup> nat"
  let ?u = "\<lparr>p2_pos = 9, p2_current_func = - 1, p2_string_id = 0,
      p2_lines = [lit ''  jmp label_00000009''], p2_strings_list = []\<rparr>"
  let ?k = "\<lparr>p2_pos = 4, p2_current_func = - 1, p2_string_id = 0, p2_lines = [],
      p2_strings_list = []\<rparr>"
  let ?k' = "\<lparr>p2_pos = 7, p2_current_func = 0, p2_string_id = 0,
      p2_lines = [lit ''# ===== FUNCTION 0 ====='', lit ''  initstack 2, 3''],
      p2_strings_list = []\<rparr>"
  let ?b' = "\<lparr>p2_pos = 8, p2_current_func = 0, p2_string_id = 0,
      p2_lines = [lit ''# ===== FUNCTION 0 ====='', lit ''  initstack 2, 3''],
      p2_strings_list = []\<rparr>"
  have unk: "HCB_LAST_OPCODE < unat (?d ! p2_pos ?u)" by (simp add: HCB_LAST_OPCODE_def)
  have nofun: "Map.empty (p2_pos ?u) = (None :: nat option)" by simp
  note inst = unknown_opcode_adds_only_label
      [of ?d ?u ascii_decode no_float Map.empty ?L 10 0 0 ?u]
  have "p2_lines (label_line ?L (function_start Map.empty ?u))
      = p2_lines ?u @ (case ?L (p2_pos ?u) of None \<Rightarrow> [] | Some l \<Rightarrow> [l @ lit '':''])"
    using inst nofun by blast
  then have hdr: "p2_lines (label_line ?L (function_start Map.empty ?u))
      = [lit ''  jmp label_00000009'', lit ''label_00000009:'']"
    by (simp add: lit_def)
  have "\<exists>s1. pass2_step ascii_decode no_float Map.empty ?L ?d ?u = Continue s1
      \<and> p2_pos s1 = p2_pos ?u + 1
      \<and> p2_strings_list s1 = p2_strings_list ?u
      \<and> p2_string_id s1 = p2_string_id ?u
      \<and> p2_lines s1 = p2_lines (label_line ?L (function_start Map.empty ?u))"
    using inst unk by blast
  then obtain s1 where s1: "pass2_step ascii_decode no_float Map.empty ?L ?d ?u = Continue s1"
    "p2_pos s1 = p2_pos ?u + 1" "p2_strings_list s1 = p2_strings_list ?u"
    "p2_lines s1 = p2_lines (label_line ?L (function_start Map.empty ?u))"
    by blast
  have ex: "\<exists>s1. pass2_step ascii_decode no_float Map.empty ?L ?d ?u = Continue s1
      \<and> p2_pos s1 = 10 \<and> p2_strings_list s1 = []
      \<and> p2_lines s1 = [lit ''  jmp label_00000009'', lit ''label_00000009:'']"
  proof (intro exI conjI)
    show "pass2_step ascii_decode no_float Map.empty ?L ?d ?u = Continue s1" by (rule s1(1))
    show "p2_pos s1 = 10" using s1(2) by simp
    show "p2_strings_list s1 = []" using s1(3) by simp
    show "p2_lines s1 = [lit ''  jmp label_00000009'', lit ''label_00000009:'']"
      using s1(4) hdr by simp
  qed
  have f: "p1_functions (pass1 ?g 9) 4 = Some 0"
    by (simp add: pass1_def pass1_loop.simps pass1_step_def table_eval Let_def)
  have init: "unat (?g ! 4) = 1 \<and> 4 < length ?g"
    using unknown_opcode_adds_only_label [of ?g ?k ascii_decode no_float ?F Map.empty 9 4 0 ?k']
      f by simp
  have kn: "unat (?g ! p2_pos ?k) \<le> HCB_LAST_OPCODE" by (simp add: HCB_LAST_OPCODE_def)
  have fh: "lit ''# ===== FUNCTION '' @ str_nat 0 @ lit '' ====='' = lit ''# ===== FUNCTION 0 =====''"
    by (simp add: fmt_eval)
  have il: "lit ''  '' @ lit ''initstack'' @ lit '' '' @ str_int 2 @ lit '', '' @ str_int 3
      = lit ''  initstack 2, 3''"
    by (simp add: fmt_eval)
  have st: "pass2_step ascii_decode no_float ?F Map.empty ?g ?k = Continue ?k'"
    apply (simp add: pass2_step_def table_eval Let_def emit_def label_line_def
        function_start_def unpack_signed_def)
    apply (simp add: fmt_eval)
    done
  have one: "\<exists>line. [lit ''# ===== FUNCTION 0 ====='', lit ''  initstack 2, 3'']
      = [lit ''# ===== FUNCTION 0 ====='' ] @ [line]"
    by simp
  have kn7: "unat (?g ! p2_pos ?k') \<le> HCB_LAST_OPCODE" by (simp add: HCB_LAST_OPCODE_def)
  have br: "pass2_step ascii_decode no_float ?F Map.empty ?g ?k' = Break ?b'"
    by (simp add: pass2_step_def table_eval Let_def emit_def label_line_def function_start_def)
  have unk': "HCB_LAST_OPCODE < unat (?d ! 9)" using unk by simp
  have kn': "unat (?g ! 4) \<le> HCB_LAST_OPCODE" using kn by simp
  have kn7': "unat (?g ! 7) \<le> HCB_LAST_OPCODE" using kn7 by simp
  from unk' ex f init kn' st one kn7' br show ?thesis by blast
qed


subsection \<open>Replacing a string operand\<close>

text \<open>
  The size-keeping step on an operand of at least one byte: the result has the length of
  the original operand and ends with NUL; a shorter replacement is padded with spaces
  before the terminator, a longer one is cut.
\<close>
lemma ensure_nul_last: "ensure_nul bs \<noteq> [] \<and> last (ensure_nul bs) = 0"
  by (simp add: ensure_nul_def)

lemma nat_int_pred: "nat (int n - 1) = n - 1"
  by simp

lemma py_slice_to_last: "py_slice_to xs (- 1) = butlast xs"
  by (simp add: py_slice_to_def butlast_conv_take nat_int_pred)

lemma py_slice_to_pred: "0 < n \<Longrightarrow> py_slice_to xs (int n - 1) = take (n - 1) xs"
  by (simp add: py_slice_to_def nat_int_pred)

lemma keep_size_length: "0 < n \<Longrightarrow> length (keep_size n bs) = n"
  using ensure_nul_last [of bs]
  by (cases "ensure_nul bs" rule: rev_cases)
     (auto simp: keep_size_def Let_def py_slice_to_last py_slice_to_pred)

lemma keep_size_last: "0 < n \<Longrightarrow> last (keep_size n bs) = 0"
  using ensure_nul_last [of bs] by (simp add: keep_size_def Let_def)

lemma keep_size_pad:
  "length (ensure_nul bs) < n \<Longrightarrow>
   keep_size n bs = butlast (ensure_nul bs) @ replicate (n - length (ensure_nul bs)) 32 @ [0]"
  using ensure_nul_last [of bs]
  by (simp add: keep_size_def Let_def py_slice_to_last)

lemma keep_size_truncate:
  "0 < n \<Longrightarrow> n < length (ensure_nul bs) \<Longrightarrow>
   keep_size n bs = take (n - 1) (ensure_nul bs) @ [0]"
  by (simp add: keep_size_def Let_def py_slice_to_pred)

lemma keep_size_terminated:
  "bs \<noteq> [] \<Longrightarrow> last bs = 0 \<Longrightarrow> keep_size (length bs) bs = bs"
  by (simp add: keep_size_def Let_def ensure_nul_def)

lemma scenario_b_replacement:
  "hcb_rebuild ascii_encode [10, 0, 0, 0, 14, 4, 97, 98, 99, 0] [(4, [120, 121])]
     = Inr ([10, 0, 0, 0, 14, 4, 120, 121, 32, 0], [])"
  by (simp add: rebuild_eval)

lemma unencodable_text_keeps_terminated_operand:
  assumes "map_of replacements old_addr = Some txt" and "enc txt = Inl (st, en)"
    and "old_str \<noteq> []" and "last old_str = 0"
  shows "new_string enc replacements old_addr (length old_str) old_str
           = (old_str, [(old_addr, take (en - st) (drop st txt))])"
  using assms by (simp add: new_string_def keep_size_terminated)

text \<open>
  C4. The claim holds for an operand of at least one byte (\<open>keep_size_length\<close>,
  \<open>keep_size_last\<close>, \<open>keep_size_pad\<close>, \<open>keep_size_truncate\<close>). For a \<^verbatim>\<open>pushstring\<close> whose
  length byte is 0 the truncation \<^verbatim>\<open>new_str[:old_str_len - 1]\<close> is \<^verbatim>\<open>new_str[:-1]\<close>, which
  cuts nothing but the terminator: the operand written is longer than the original one
  and the file grows. The file below holds \<^verbatim>\<open>pushstring\<close> with length 0 at address 4 and
  entry point 6; the replacement is the text \<open>x\<close>.
\<close>

theorem replaced_empty_operand_grows:
  "hcb_rebuild ascii_encode [6, 0, 0, 0, 14, 0] [(4, [120])]
     = Inr ([6, 0, 0, 0, 14, 2, 120, 0], [])"
  by (simp add: rebuild_eval)

text \<open>
  C7. When the replacement cannot be encoded the source takes the original bytes and then
  still runs the terminator and size step on them, so an original operand that does not
  end with NUL loses its last byte. The file below holds \<^verbatim>\<open>pushstring\<close> with the one-byte
  operand \<open>a\<close> at address 4; the replacement is U+00E9. An operand that ends with NUL is
  written unchanged (\<open>unencodable_text_keeps_terminated_operand\<close>).
\<close>

theorem unencodable_text_changes_operand:
  "ascii_encode [233] = Inl (0, 1)
   \<and> hcb_rebuild ascii_encode [7, 0, 0, 0, 14, 1, 97] [(4, [233])]
       = Inr ([7, 0, 0, 0, 14, 1, 0], [(4, [233])])"
  by (simp add: rebuild_eval)

subsection \<open>Truncated instructions\<close>

lemma truncated_step_breaks:
  assumes "unat (data ! p2_pos s) \<le> HCB_LAST_OPCODE"
    and "get_opcode_info (unat (data ! p2_pos s)) = Some (name, a)"
    and "(a = OPARG_X32 \<or> a = OPARG_I32) \<and> length data < p2_pos s + 5
         \<or> (a = OPARG_I16 \<or> a = OPARG_I8I8) \<and> length data < p2_pos s + 3
         \<or> a = OPARG_I8 \<and> length data < p2_pos s + 2"
  shows "pass2_step dec frepr functions labels data s
           = Break ((label_line labels (function_start functions s))\<lparr>p2_pos := p2_pos s + 1\<rparr>)"
  using assms by (auto simp: pass2_step_def Let_def)

lemma header_lines_extend:
  "\<exists>hdr. p2_lines (label_line labels (function_start functions s)) = p2_lines s @ hdr"
  by (simp add: label_line_def function_start_def split: option.split)

lemma pass2_step_lines_grow:
  assumes "pass2_step dec frepr functions labels data s = Continue s'"
  shows "\<exists>more. p2_lines s' = p2_lines s @ more"
proof -
  obtain hdr where hdr: "p2_lines (label_line labels (function_start functions s))
      = p2_lines s @ hdr"
    using header_lines_extend by blast
  have "p2_lines s' = p2_lines (label_line labels (function_start functions s))
      \<or> (\<exists>line. p2_lines s' = p2_lines (label_line labels (function_start functions s)) @ [line])"
    using assms unfolding pass2_step_def Let_def emit_def
    by (auto split: if_split_asm option.split_asm prod.split_asm oparg.split_asm)
  then show ?thesis using hdr by auto
qed

lemma pass2_iterations_loop:
  "pass2_iterations n dec frepr functions labels data code_end s0 = Some s \<Longrightarrow>
   pass2_loop dec frepr functions labels data code_end s0
     = pass2_loop dec frepr functions labels data code_end s"
proof (induction n arbitrary: s0)
  case 0
  then show ?case by simp
next
  case (Suc n)
  from Suc.prems obtain s1 where guard: "p2_pos s0 < code_end" "p2_pos s0 < length data"
    and step: "pass2_step dec frepr functions labels data s0 = Continue s1"
    and rest: "pass2_iterations n dec frepr functions labels data code_end s1 = Some s"
    by (auto split: if_split_asm loop_ctl.split_asm)
  have "pass2_loop dec frepr functions labels data code_end s0
      = pass2_loop dec frepr functions labels data code_end s1"
    using guard step by (subst pass2_loop.simps) simp
  then show ?case using Suc.IH [OF rest] by simp
qed

lemma pass2_iterations_lines_grow:
  "pass2_iterations n dec frepr functions labels data code_end s0 = Some s \<Longrightarrow>
   \<exists>more. p2_lines s = p2_lines s0 @ more"
proof (induction n arbitrary: s0)
  case 0
  then show ?case by simp
next
  case (Suc n)
  from Suc.prems obtain s1 where
    step: "pass2_step dec frepr functions labels data s0 = Continue s1"
    and rest: "pass2_iterations n dec frepr functions labels data code_end s1 = Some s"
    by (auto split: if_split_asm loop_ctl.split_asm)
  obtain m1 where "p2_lines s1 = p2_lines s0 @ m1"
    using pass2_step_lines_grow [OF step] by blast
  moreover obtain m2 where "p2_lines s = p2_lines s1 @ m2"
    using Suc.IH [OF rest] by blast
  ultimately show ?case by simp
qed

lemma pass2_iterations_split:
  "k \<le> n \<Longrightarrow>
   pass2_iterations n dec frepr functions labels data code_end s0 = Some s \<Longrightarrow>
   pass2_iterations k dec frepr functions labels data code_end s0 = Some sk \<Longrightarrow>
   pass2_iterations (n - k) dec frepr functions labels data code_end sk = Some s"
proof (induction k arbitrary: n s0)
  case 0
  then show ?case by simp
next
  case (Suc k)
  then obtain n' where n: "n = Suc n'" and le: "k \<le> n'" by (cases n) auto
  from Suc.prems(3) obtain s1 where
    step: "pass2_step dec frepr functions labels data s0 = Continue s1"
    and guard: "p2_pos s0 < code_end \<and> p2_pos s0 < length data"
    and restk: "pass2_iterations k dec frepr functions labels data code_end s1 = Some sk"
    by (auto split: if_split_asm loop_ctl.split_asm)
  have restn: "pass2_iterations n' dec frepr functions labels data code_end s1 = Some s"
    using Suc.prems(2) step guard unfolding n by simp
  show ?case using Suc.IH [OF le restn restk] n by simp
qed

lemma truncated_pass1_stops:
  assumes "p1_pos s1 < code_end" and "p1_pos s1 < length data"
    and "unat (data ! p1_pos s1) \<le> HCB_LAST_OPCODE"
    and "get_opcode_info (unat (data ! p1_pos s1)) = Some (name, a)"
    and "(a = OPARG_X32 \<or> a = OPARG_I32) \<and> length data < p1_pos s1 + 5
         \<or> (a = OPARG_I16 \<or> a = OPARG_I8I8) \<and> length data < p1_pos s1 + 3
         \<or> a = OPARG_I8 \<and> length data < p1_pos s1 + 2"
  shows "pass1_loop data code_end s1 = pass1_step data code_end s1
       \<and> p1_labels (pass1_step data code_end s1) = p1_labels s1
       \<and> length data < p1_pos (pass1_step data code_end s1)"
proof -
  have known: "\<not> HCB_LAST_OPCODE < unat (data ! p1_pos s1)" using assms(3) by simp
  have both: "p1_labels (pass1_step data code_end s1) = p1_labels s1
      \<and> length data < p1_pos (pass1_step data code_end s1)"
    using assms(5)
  proof (elim disjE conjE)
    assume "a = OPARG_X32" and "length data < p1_pos s1 + 5"
    then show ?thesis using known assms(4) by (simp add: pass1_step_def Let_def)
  next
    assume "a = OPARG_I32" and "length data < p1_pos s1 + 5"
    then show ?thesis using known assms(4) by (simp add: pass1_step_def Let_def)
  next
    assume "a = OPARG_I16" and "length data < p1_pos s1 + 3"
    then show ?thesis using known assms(4) by (simp add: pass1_step_def Let_def)
  next
    assume "a = OPARG_I8I8" and "length data < p1_pos s1 + 3"
    then show ?thesis using known assms(4) by (simp add: pass1_step_def Let_def)
  next
    assume "a = OPARG_I8" and "length data < p1_pos s1 + 2"
    then show ?thesis using known assms(4) by (simp add: pass1_step_def Let_def)
  qed
  have "pass1_loop data code_end s1 = pass1_loop data code_end (pass1_step data code_end s1)"
    using assms(1,2) by (subst pass1_loop.simps) simp
  also have "\<dots> = pass1_step data code_end s1"
    using both by (subst pass1_loop.simps) simp
  finally show ?thesis using both by simp
qed

text \<open>
  C9. Let the file have at least 4 bytes, and let the second pass, after \<open>n\<close> iterations
  from address 4 with the functions and labels of the first pass, stand at an instruction
  whose fixed-width argument does not fit in the file. Then the decoder raises nothing and
  writes its output: the listing is every line emitted in those iterations, then the
  function header and label of the address if it has them, then the blank line and the
  trailer of the entry point, and the strings file holds the records collected so far.
  No line emitted at an earlier iteration is lost. The second pass stops at that
  instruction. The first pass at such an instruction raises nothing either: it adds no
  label, moves its cursor beyond the end of the file and stops.
\<close>

theorem truncated_instruction_stops:
  assumes "4 \<le> length data"
    and "ep = unpack_le (take 4 data)"
    and "F = p1_functions (pass1 data ep)" and "L = p1_labels (pass1 data ep)"
    and "s0 = \<lparr>p2_pos = 4, p2_current_func = - 1, p2_string_id = 0, p2_lines = [],
               p2_strings_list = []\<rparr>"
    and "pass2_iterations n dec frepr F L data ep s0 = Some s"
    and "p2_pos s < ep" and "p2_pos s < length data"
    and "unat (data ! p2_pos s) \<le> HCB_LAST_OPCODE"
    and "get_opcode_info (unat (data ! p2_pos s)) = Some (name, a)"
    and "(a = OPARG_X32 \<or> a = OPARG_I32) \<and> length data < p2_pos s + 5
         \<or> (a = OPARG_I16 \<or> a = OPARG_I8I8) \<and> length data < p2_pos s + 3
         \<or> a = OPARG_I8 \<and> length data < p2_pos s + 2"
  shows "hcb_decode dec frepr data =
           Inr \<lparr>listing = p2_lines (label_line L (function_start F s))
                    @ [[], lit ''# ENTRY_POINT: 0x'' @ fmt_08X ep],
                strings_file = map strings_file_line (p2_strings_list s)\<rparr>
       \<and> (\<exists>hdr. p2_lines (label_line L (function_start F s)) = p2_lines s @ hdr)
       \<and> (\<forall>k sk. k \<le> n \<and> pass2_iterations k dec frepr F L data ep s0 = Some sk
             \<longrightarrow> (\<exists>more. p2_lines s = p2_lines sk @ more))
       \<and> pass2_loop dec frepr F L data ep s
           = (label_line L (function_start F s))\<lparr>p2_pos := p2_pos s + 1\<rparr>
       \<and> (\<forall>s1. p1_pos s1 = p2_pos s \<longrightarrow>
             pass1_loop data ep s1 = pass1_step data ep s1
           \<and> p1_labels (pass1_step data ep s1) = p1_labels s1
           \<and> length data < p1_pos (pass1_step data ep s1))"
proof (intro conjI allI impI)
  have brk: "pass2_step dec frepr F L data s
      = Break ((label_line L (function_start F s))\<lparr>p2_pos := p2_pos s + 1\<rparr>)"
    using assms(9,10,11) by (rule truncated_step_breaks)
  show stop: "pass2_loop dec frepr F L data ep s
      = (label_line L (function_start F s))\<lparr>p2_pos := p2_pos s + 1\<rparr>"
    using assms(7,8) brk by (subst pass2_loop.simps) simp
  have "pass2_loop dec frepr F L data ep s0 = pass2_loop dec frepr F L data ep s"
    using assms(6) by (rule pass2_iterations_loop)
  then have fin: "pass2_loop dec frepr F L data ep s0
      = (label_line L (function_start F s))\<lparr>p2_pos := p2_pos s + 1\<rparr>"
    using stop by simp
  show "hcb_decode dec frepr data =
           Inr \<lparr>listing = p2_lines (label_line L (function_start F s))
                    @ [[], lit ''# ENTRY_POINT: 0x'' @ fmt_08X ep],
                strings_file = map strings_file_line (p2_strings_list s)\<rparr>"
    using assms(1) fin [unfolded assms(3,4,5)]
    unfolding assms(3,4) assms(2)
    by (simp add: hcb_decode_def Let_def pass2_headers_keep_strings)
  show "\<exists>hdr. p2_lines (label_line L (function_start F s)) = p2_lines s @ hdr"
    by (rule header_lines_extend)
next
  fix k sk
  assume h: "k \<le> n \<and> pass2_iterations k dec frepr F L data ep s0 = Some sk"
  then have "pass2_iterations (n - k) dec frepr F L data ep sk = Some s"
    using pass2_iterations_split [of k n dec frepr F L data ep s0 s sk] assms(6) by blast
  then show "\<exists>more. p2_lines s = p2_lines sk @ more"
    by (rule pass2_iterations_lines_grow)
next
  fix s1 :: p1state
  assume p: "p1_pos s1 = p2_pos s"
  have t: "pass1_loop data ep s1 = pass1_step data ep s1
       \<and> p1_labels (pass1_step data ep s1) = p1_labels s1
       \<and> length data < p1_pos (pass1_step data ep s1)"
    using truncated_pass1_stops [of s1 ep data name a] assms(7-11) p by simp
  show "pass1_loop data ep s1 = pass1_step data ep s1" using t by simp
  show "p1_labels (pass1_step data ep s1) = p1_labels s1" using t by simp
  show "length data < p1_pos (pass1_step data ep s1)" using t by simp
qed

theorem truncated_instruction_stops_witness:
  "4 \<le> length [10, 0, 0, 0, 4, 4, 10, 1, 2 :: byte]
   \<and> unpack_le (take 4 [10, 0, 0, 0, 4, 4, 10, 1, 2]) = 10
   \<and> pass1 [10, 0, 0, 0, 4, 4, 10, 1, 2] 10
       = \<lparr>p1_pos = 11, p1_func_num = 0, p1_functions = Map.empty, p1_labels = Map.empty\<rparr>
   \<and> pass2_iterations (Suc (Suc 0)) ascii_decode no_float Map.empty Map.empty
         [10, 0, 0, 0, 4, 4, 10, 1, 2] 10
         \<lparr>p2_pos = 4, p2_current_func = - 1, p2_string_id = 0, p2_lines = [],
          p2_strings_list = []\<rparr>
       = Some \<lparr>p2_pos = 6, p2_current_func = - 1, p2_string_id = 0,
               p2_lines = [lit ''  ret'', lit ''  ret''], p2_strings_list = []\<rparr>
   \<and> (6 :: nat) < 10 \<and> 6 < length [10, 0, 0, 0, 4, 4, 10, 1, 2 :: byte]
   \<and> unat ([10, 0, 0, 0, 4, 4, 10, 1, 2 :: byte] ! 6) \<le> HCB_LAST_OPCODE
   \<and> get_opcode_info (unat ([10, 0, 0, 0, 4, 4, 10, 1, 2 :: byte] ! 6))
       = Some (''pushint'', OPARG_I32)
   \<and> length [10, 0, 0, 0, 4, 4, 10, 1, 2 :: byte] < 6 + 5
   \<and> hcb_decode ascii_decode no_float [10, 0, 0, 0, 4, 4, 10, 1, 2]
       = Inr \<lparr>listing = [lit ''  ret'', lit ''  ret'', [], lit ''# ENTRY_POINT: 0x0000000A''],
              strings_file = []\<rparr>"
proof -
  let ?d = "[10, 0, 0, 0, 4, 4, 10, 1, 2] :: byte list"
  let ?init = "\<lparr>p2_pos = 4, p2_current_func = - 1, p2_string_id = 0, p2_lines = [],
          p2_strings_list = []\<rparr>"
  let ?st = "\<lparr>p2_pos = 6, p2_current_func = - 1, p2_string_id = 0,
          p2_lines = [lit ''  ret'', lit ''  ret''], p2_strings_list = []\<rparr>"
  have h1: "4 \<le> length ?d" by simp
  have ep: "unpack_le (take 4 ?d) = 10" by simp
  have h2: "10 = unpack_le (take 4 ?d)" by simp
  have p1: "pass1 ?d 10
      = \<lparr>p1_pos = 11, p1_func_num = 0, p1_functions = Map.empty, p1_labels = Map.empty\<rparr>"
    by (simp add: pass1_def pass1_loop.simps pass1_step_def table_eval Let_def)
  have h3: "Map.empty = p1_functions (pass1 ?d 10)" by (simp add: p1)
  have h4: "Map.empty = p1_labels (pass1 ?d 10)" by (simp add: p1)
  have h5: "?init = ?init" by (rule refl)
  have st4: "pass2_step ascii_decode no_float Map.empty Map.empty ?d ?init
      = Continue \<lparr>p2_pos = 5, p2_current_func = - 1, p2_string_id = 0,
          p2_lines = [lit ''  ret''], p2_strings_list = []\<rparr>"
    by (simp add: pass2_step_def table_eval Let_def emit_def label_line_def function_start_def
        lit_def)
  have st5: "pass2_step ascii_decode no_float Map.empty Map.empty ?d
        \<lparr>p2_pos = 5, p2_current_func = - 1, p2_string_id = 0,
          p2_lines = [lit ''  ret''], p2_strings_list = []\<rparr>
      = Continue ?st"
    by (simp add: pass2_step_def table_eval Let_def emit_def label_line_def function_start_def
        lit_def)
  have h6: "pass2_iterations (Suc (Suc 0)) ascii_decode no_float Map.empty Map.empty ?d 10 ?init
      = Some ?st"
    by (simp only: pass2_iterations.simps) (simp add: st4 st5)
  have h7: "p2_pos ?st < 10" by simp
  have h8: "p2_pos ?st < length ?d" by simp
  have h9: "unat (?d ! p2_pos ?st) \<le> HCB_LAST_OPCODE" by (simp add: HCB_LAST_OPCODE_def)
  have h10: "get_opcode_info (unat (?d ! p2_pos ?st)) = Some (''pushint'', OPARG_I32)"
    by (simp add: table_eval)
  have h11: "(OPARG_I32 = OPARG_X32 \<or> OPARG_I32 = OPARG_I32) \<and> length ?d < p2_pos ?st + 5
         \<or> (OPARG_I32 = OPARG_I16 \<or> OPARG_I32 = OPARG_I8I8) \<and> length ?d < p2_pos ?st + 3
         \<or> OPARG_I32 = OPARG_I8 \<and> length ?d < p2_pos ?st + 2"
    by simp
  have tr: "lit ''# ENTRY_POINT: 0x'' @ fmt_08X 10 = lit ''# ENTRY_POINT: 0x0000000A''"
    by (simp add: fmt_eval)
  have "hcb_decode ascii_decode no_float ?d =
      Inr \<lparr>listing = p2_lines (label_line Map.empty (function_start Map.empty ?st))
               @ [[], lit ''# ENTRY_POINT: 0x'' @ fmt_08X 10],
           strings_file = map strings_file_line (p2_strings_list ?st)\<rparr>"
    using truncated_instruction_stops [OF h1 h2 h3 h4 h5 h6 h7 h8 h9 h10 h11] by blast
  then have out: "hcb_decode ascii_decode no_float ?d
      = Inr \<lparr>listing = [lit ''  ret'', lit ''  ret'', [], lit ''# ENTRY_POINT: 0x0000000A''],
             strings_file = []\<rparr>"
    unfolding tr by (simp add: label_line_def function_start_def)
  show ?thesis using ep p1 h6 h9 h10 out by simp
qed

subsection \<open>The rebuilder keeps the length of a well-formed file\<close>

lemma byte_lt_256: "unat (b :: byte) < 256"
  using unsigned_less [of b, where 'a = nat] by simp

lemma word_256_zero: "(256 :: byte) = 0"
  by simp

lemma of_nat_low_byte: "(of_nat (unat (a :: byte) + 256 * r) :: byte) = a"
  by (simp add: word_256_zero)

lemma pack_unpack_4: "pack_I (unpack_le [a, b, c, d]) = [a, b, c, d]"
proof -
  have a: "unat a < 256" and b: "unat b < 256" and c: "unat c < 256"
    by (rule byte_lt_256)+
  let ?n = "unat a + 256 * (unat b + 256 * (unat c + 256 * unat d))"
  have d1: "?n div 256 = unat b + 256 * (unat c + 256 * unat d)" using a by simp
  have d2: "?n div 65536 = unat c + 256 * unat d" using a b by simp
  have d3: "?n div 16777216 = unat d" using a b c by simp
  have n: "unpack_le [a, b, c, d] = ?n" by simp
  have c1: "(of_nat ?n :: byte) = a" by (rule of_nat_low_byte)
  have c2: "(of_nat (unat b + 256 * (unat c + 256 * unat d)) :: byte) = b"
    by (rule of_nat_low_byte)
  have c3: "(of_nat (unat c + 256 * unat d) :: byte) = c" by (rule of_nat_low_byte)
  have c4: "(of_nat (unat d) :: byte) = d" by simp
  show ?thesis
    unfolding pack_I_def n d1 d2 d3 c1 c2 c3 c4 by (rule refl)
qed

lemma pack_unpack_header:
  assumes "4 \<le> length data"
  shows "pack_I (unpack_le (take 4 data)) = take 4 data"
proof -
  have "\<exists>a b c d rest. data = a # b # c # d # rest"
    using assms
    by (cases data; simp; rename_tac x xs; case_tac xs; simp; rename_tac y ys; case_tac ys;
        simp; rename_tac z zs; case_tac zs; simp)
  then obtain a b c d rest where "data = a # b # c # d # rest" by blast
  then show ?thesis using pack_unpack_4 [of a b c d] by simp
qed

lemma pass1_loop_pos_mono: "p1_pos s \<le> p1_pos (pass1_loop data code_end s)"
proof (induction data code_end s rule: pass1_loop.induct)
  case (1 data code_end s)
  show ?case
  proof (cases "p1_pos s < code_end \<and> p1_pos s < length data")
    case True
    then have "pass1_loop data code_end s = pass1_loop data code_end (pass1_step data code_end s)"
      by (subst pass1_loop.simps) simp
    moreover have "p1_pos (pass1_step data code_end s)
        \<le> p1_pos (pass1_loop data code_end (pass1_step data code_end s))"
      using "1.IH" True by simp
    ultimately show ?thesis using pass1_step_pos [of s data code_end] by simp
  next
    case False
    then have "pass1_loop data code_end s = s" by (subst pass1_loop.simps) auto
    then show ?thesis by simp
  qed
qed

lemma new_string_length:
  assumes "0 < n \<or> map_of replacements old_addr = None" and "length old_str = n"
  shows "length (fst (new_string enc replacements old_addr n old_str)) = n"
  using assms
  by (auto simp: new_string_def keep_size_length split: option.split sum.split prod.split)

lemma rebuild_step_follows_pass1:
  assumes pos: "r_pos rs = p1_pos ps" and inb: "p1_pos ps < length data"
    and fin: "p1_pos (pass1_step data code_end ps) \<le> length data"
    and ne: "map_of replacements (p1_pos ps) \<noteq> None \<Longrightarrow> p1_pos ps + 1 < length data
              \<Longrightarrow> unat (data ! p1_pos ps) = 14 \<Longrightarrow> unat (data ! (p1_pos ps + 1)) \<noteq> 0"
  shows "\<exists>rs'. rebuild_step enc replacements data rs = Inr rs'
           \<and> r_pos rs' = p1_pos (pass1_step data code_end ps)
           \<and> length (r_new_code rs') + r_pos rs = length (r_new_code rs) + r_pos rs'"
proof (cases "HCB_LAST_OPCODE < unat (data ! p1_pos ps)")
  case True
  then show ?thesis using pos inb
    by (simp add: rebuild_step_def pass1_step_def Let_def)
next
  case known: False
  show ?thesis
  proof (cases "get_opcode_info (unat (data ! p1_pos ps))")
    case None
    then show ?thesis using pos inb known
      by (simp add: rebuild_step_def pass1_step_def Let_def)
  next
    case (Some na)
    obtain name a where na: "na = (name, a)" by (cases na)
    note info = Some [unfolded na]
    show ?thesis
    proof (cases a)
      case OPARG_NULL
      then show ?thesis using pos inb known info
        by (simp add: rebuild_step_def pass1_step_def Let_def)
    next
      case OPARG_X32
      then have "p1_pos ps + 5 \<le> length data"
        using fin known info by (simp add: pass1_step_def Let_def)
      then show ?thesis using pos inb known info OPARG_X32
        by (simp add: rebuild_step_def pass1_step_def Let_def)
    next
      case OPARG_I32
      then have "p1_pos ps + 5 \<le> length data"
        using fin known info by (simp add: pass1_step_def Let_def)
      then show ?thesis using pos inb known info OPARG_I32
        by (simp add: rebuild_step_def pass1_step_def Let_def)
    next
      case OPARG_I16
      then have "p1_pos ps + 3 \<le> length data"
        using fin known info by (simp add: pass1_step_def Let_def)
      then show ?thesis using pos inb known info OPARG_I16
        by (simp add: rebuild_step_def pass1_step_def Let_def)
    next
      case OPARG_I8
      then have "p1_pos ps + 2 \<le> length data"
        using fin known info by (simp add: pass1_step_def Let_def)
      then show ?thesis using pos inb known info OPARG_I8
        by (simp add: rebuild_step_def pass1_step_def Let_def)
    next
      case OPARG_I8I8
      then have "p1_pos ps + 3 \<le> length data"
        using fin known info by (simp add: pass1_step_def Let_def)
      then show ?thesis using pos inb known info OPARG_I8I8
        by (simp add: rebuild_step_def pass1_step_def Let_def)
    next
      case OPARG_STRING
      let ?p = "p1_pos ps"
      let ?n = "unat (data ! (?p + 1))"
      have lenb: "?p + 1 < length data"
        using fin known info OPARG_STRING
        by (simp add: pass1_step_def Let_def split: if_splits)
      then have p1: "p1_pos (pass1_step data code_end ps) = ?p + 2 + ?n"
        using known info OPARG_STRING by (simp add: pass1_step_def Let_def)
      then have room: "?p + 2 + ?n \<le> length data" using fin by simp
      have op: "unat (data ! ?p) = 14"
        using opcode_cases [OF info] OPARG_STRING by simp
      have old: "length (take ?n (drop (?p + 2) data)) = ?n" using room by simp
      have cond: "0 < ?n \<or> map_of replacements ?p = None" using ne op lenb by auto
      obtain new_str warns where
        ns: "new_string enc replacements ?p ?n (take ?n (drop (?p + 2) data)) = (new_str, warns)"
        by (cases "new_string enc replacements ?p ?n (take ?n (drop (?p + 2) data))")
      have nl: "length new_str = ?n"
        using new_string_length [OF cond old, of enc] ns by simp
      have small: "\<not> 255 < length new_str"
        using nl byte_lt_256 [of "data ! (?p + 1)"] by simp
      show ?thesis
        using pos inb known info OPARG_STRING lenb p1 ns nl small
        by (simp add: rebuild_step_def Let_def)
    qed
  qed
qed

lemma rebuild_loop_follows_pass1:
  "r_pos rs = p1_pos ps \<Longrightarrow>
   p1_pos (pass1_loop data code_end ps) = code_end \<Longrightarrow>
   code_end \<le> length data \<Longrightarrow>
   \<forall>a \<in> dom (map_of replacements).
      a + 1 < length data \<and> unat (data ! a) = 14 \<longrightarrow> unat (data ! (a + 1)) \<noteq> 0 \<Longrightarrow>
   \<exists>rs'. rebuild_loop enc replacements data code_end rs = Inr rs'
         \<and> r_pos rs' = code_end
         \<and> length (r_new_code rs') + r_pos rs = length (r_new_code rs) + code_end"
proof (induction data code_end ps arbitrary: rs rule: pass1_loop.induct)
  case (1 data code_end ps)
  show ?case
  proof (cases "p1_pos ps < code_end")
    case True
    then have inb: "p1_pos ps < length data" using "1.prems"(3) by simp
    have unfold: "pass1_loop data code_end ps
        = pass1_loop data code_end (pass1_step data code_end ps)"
      using True inb by (subst pass1_loop.simps) simp
    then have fin': "p1_pos (pass1_loop data code_end (pass1_step data code_end ps)) = code_end"
      using "1.prems"(2) by simp
    have "p1_pos (pass1_step data code_end ps) \<le> code_end"
      using pass1_loop_pos_mono [of "pass1_step data code_end ps" data code_end] fin' by simp
    then have fin: "p1_pos (pass1_step data code_end ps) \<le> length data"
      using "1.prems"(3) by simp
    have ne: "map_of replacements (p1_pos ps) \<noteq> None \<Longrightarrow> p1_pos ps + 1 < length data
        \<Longrightarrow> unat (data ! p1_pos ps) = 14 \<Longrightarrow> unat (data ! (p1_pos ps + 1)) \<noteq> 0"
      using "1.prems"(4) by (auto simp: dom_def)
    obtain rs1 where step: "rebuild_step enc replacements data rs = Inr rs1"
      and pos1: "r_pos rs1 = p1_pos (pass1_step data code_end ps)"
      and len1: "length (r_new_code rs1) + r_pos rs = length (r_new_code rs) + r_pos rs1"
      using rebuild_step_follows_pass1 [OF "1.prems"(1) inb fin ne, where enc = enc] by blast
    obtain rs' where run: "rebuild_loop enc replacements data code_end rs1 = Inr rs'"
      and pos': "r_pos rs' = code_end"
      and len': "length (r_new_code rs') + r_pos rs1 = length (r_new_code rs1) + code_end"
      using "1.IH" [of rs1] True inb pos1 fin' "1.prems"(3,4) by auto
    have "rebuild_loop enc replacements data code_end rs = Inr rs'"
      using True "1.prems"(1) step run by (subst rebuild_loop.simps) simp
    then show ?thesis using pos' len1 len' by simp
  next
    case False
    then have "pass1_loop data code_end ps = ps" by (subst pass1_loop.simps) simp
    then have "r_pos rs = code_end" using "1.prems"(1,2) by simp
    then show ?thesis by (subst rebuild_loop.simps) simp
  qed
qed

text \<open>
  Why the code section must be well formed: with an entry point beyond the end of the
  file the rebuilder raises IndexError, and when the last instruction runs past the entry
  point its bytes are written twice, once as code and once as data.
\<close>

lemma rebuild_needs_well_formed_code:
  "hcb_rebuild ascii_encode [9, 0, 0, 0, 0] [(4, [120])] = Inl IndexError
   \<and> hcb_rebuild ascii_encode [6, 0, 0, 0, 10, 1, 2, 3, 4] [(4, [120])]
       = Inr ([6, 0, 0, 0, 10, 1, 2, 3, 4, 2, 3, 4], [])"
  by (simp add: rebuild_eval)

text \<open>
  C1, as stated, fails: the rebuilder never checks the header. With entry point 0 the code
  section is empty, the 4 header bytes are written and the whole file is copied after
  them as the data section: 4 bytes in, 8 bytes out.
\<close>

theorem rebuild_entry_point_zero_grows:
  "hcb_rebuild ascii_encode [0, 0, 0, 0] [(4, [120])] = Inr ([0, 0, 0, 0, 0, 0, 0, 0], [])"
  by (simp add: rebuild_eval)

text \<open>
  C1, amended. Let the entry point lie between 4 and the length of the file, let the
  traversal of the code section from address 4 (the first pass of the decoder) end exactly
  at the entry point, and let no replaced \<^verbatim>\<open>pushstring\<close> have the length byte 0. Then for
  every replacement map and every encoder the rebuilder raises nothing and writes an
  output of the length of the input, with the same 4 header bytes, so the same entry
  point, and the same data section.
\<close>

theorem rebuild_keeps_length:
  assumes "4 \<le> unpack_le (take 4 data)" and "unpack_le (take 4 data) \<le> length data"
    and "p1_pos (pass1 data (unpack_le (take 4 data))) = unpack_le (take 4 data)"
    and "\<forall>a \<in> dom (map_of replacements).
           a + 1 < length data \<and> unat (data ! a) = 14 \<longrightarrow> unat (data ! (a + 1)) \<noteq> 0"
  shows "\<exists>out warns. hcb_rebuild enc data replacements = Inr (out, warns)
           \<and> length out = length data
           \<and> take 4 out = take 4 data
           \<and> unpack_le (take 4 out) = unpack_le (take 4 data)
           \<and> drop (unpack_le (take 4 data)) out = drop (unpack_le (take 4 data)) data"
proof (cases "replacements = []")
  case True
  then show ?thesis by (simp add: hcb_rebuild_def)
next
  case False
  let ?ep = "unpack_le (take 4 data)"
  let ?r0 = "\<lparr>r_pos = 4, r_new_code = [], r_warnings = []\<rparr>"
  let ?p0 = "\<lparr>p1_pos = 4, p1_func_num = 0, p1_functions = Map.empty, p1_labels = Map.empty\<rparr>"
  have len4: "4 \<le> length data" using assms(1,2) by simp
  have fin: "p1_pos (pass1_loop data ?ep ?p0) = ?ep" using assms(3) by (simp add: pass1_def)
  have start: "r_pos ?r0 = p1_pos ?p0" by simp
  obtain rs' where run: "rebuild_loop enc replacements data ?ep ?r0 = Inr rs'"
    and "r_pos rs' = ?ep"
    and len: "length (r_new_code rs') + r_pos ?r0 = length (r_new_code ?r0) + ?ep"
    using rebuild_loop_follows_pass1 [OF start fin assms(2) assms(4), where enc = enc] by blast
  have code: "length (r_new_code rs') + 4 = ?ep" using len by simp
  have hdr: "pack_I ?ep = take 4 data" using len4 by (rule pack_unpack_header)
  have hl: "length (take 4 data) = 4" using len4 by simp
  let ?out = "take 4 data @ r_new_code rs' @ drop ?ep data"
  have res: "hcb_rebuild enc data replacements = Inr (?out, r_warnings rs')"
    using False len4 run by (simp add: hcb_rebuild_def Let_def hdr)
  have l: "length ?out = length data" using code assms(2) hl by simp
  have t: "take 4 ?out = take 4 data" using hl by simp
  have "length (take 4 data @ r_new_code rs') = ?ep" using code hl by simp
  then have d: "drop ?ep ?out = drop ?ep data"
    by (metis append.assoc append_eq_conv_conj)
  have u: "unpack_le (take 4 ?out) = ?ep" by (simp only: t)
  from res l t u d show ?thesis by blast
qed

theorem rebuild_keeps_length_witness:
  "4 \<le> unpack_le (take 4 [10, 0, 0, 0, 14, 4, 97, 98, 99, 0])
   \<and> unpack_le (take 4 [10, 0, 0, 0, 14, 4, 97, 98, 99, 0])
        \<le> length [10, 0, 0, 0, 14, 4, 97, 98, 99, 0 :: byte]
   \<and> p1_pos (pass1 [10, 0, 0, 0, 14, 4, 97, 98, 99, 0] 10) = 10
   \<and> dom (map_of [(4 :: nat, [120, 121 :: nat])]) = {4}
   \<and> unat ([10, 0, 0, 0, 14, 4, 97, 98, 99, 0 :: byte] ! 5) \<noteq> 0
   \<and> (\<exists>out warns. hcb_rebuild ascii_encode [10, 0, 0, 0, 14, 4, 97, 98, 99, 0] [(4, [120, 121])]
          = Inr (out, warns)
        \<and> length out = 10 \<and> take 4 out = [10, 0, 0, 0] \<and> unpack_le (take 4 out) = 10)
   \<and> hcb_rebuild ascii_encode [10, 0, 0, 0, 14, 4, 97, 98, 99, 0] [(4, [120, 121])]
        = Inr ([10, 0, 0, 0, 14, 4, 120, 121, 32, 0], [])"
proof -
  let ?d = "[10, 0, 0, 0, 14, 4, 97, 98, 99, 0] :: byte list"
  let ?m = "[(4, [120, 121])] :: (nat \<times> ustring) list"
  have ep: "unpack_le (take 4 ?d) = 10" by simp
  have h1: "4 \<le> unpack_le (take 4 ?d)" by simp
  have h2: "unpack_le (take 4 ?d) \<le> length ?d" by simp
  have p1: "p1_pos (pass1 ?d 10) = 10"
    by (simp add: pass1_def pass1_loop.simps pass1_step_def table_eval Let_def)
  have h3: "p1_pos (pass1 ?d (unpack_le (take 4 ?d))) = unpack_le (take 4 ?d)"
    unfolding ep by (rule p1)
  have dm: "dom (map_of ?m) = {4}" by simp
  have h4: "\<forall>a \<in> dom (map_of ?m).
      a + 1 < length ?d \<and> unat (?d ! a) = 14 \<longrightarrow> unat (?d ! (a + 1)) \<noteq> 0"
    unfolding dm by simp
  have ln: "length ?d = 10" by simp
  have tk: "take 4 ?d = [10, 0, 0, 0]" by simp
  have ep': "unpack_le [10, 0, 0, 0] = 10" by simp
  have ex: "\<exists>out warns. hcb_rebuild ascii_encode ?d ?m = Inr (out, warns)
      \<and> length out = 10 \<and> take 4 out = [10, 0, 0, 0] \<and> unpack_le (take 4 out) = 10"
    using rebuild_keeps_length [OF h1 h2 h3 h4, where enc = ascii_encode]
    unfolding tk ln ep' by blast
  have run: "hcb_rebuild ascii_encode ?d ?m = Inr ([10, 0, 0, 0, 14, 4, 120, 121, 32, 0], [])"
    by (simp add: rebuild_eval)
  show ?thesis using h1 h2 p1 dm ex run by simp
qed

end
